theory Spec2Isabelle
  imports Main "HOL-Library.AList" "HOL-Library.Log_Nat"
begin

section \<open>Values\<close>

text \<open>
  A cell of a row holds \<^verbatim>\<open>None\<close>, an \<^verbatim>\<open>int\<close>, a \<^verbatim>\<open>float\<close> or a \<^verbatim>\<open>str\<close>: these are the
  objects that \<^verbatim>\<open>SQLParser._parse_value\<close> builds. A Python \<^verbatim>\<open>int\<close> is unbounded. A
  \<^verbatim>\<open>float\<close> is an IEEE double; a finite double is the rational number it denotes, and the two
  infinities are values of their own. NaN is left out: it is the only float that differs
  from itself, and \<^verbatim>\<open>_parse_value\<close> cannot build it (it calls \<^verbatim>\<open>float\<close> only on a literal
  that contains a dot).
\<close>

datatype pyfloat = Finite rat | PosInf | NegInf

datatype pyvalue = VNone | VInt int | VFloat pyfloat | VStr string

text \<open>
  Python's \<^verbatim>\<open>==\<close> on these objects: numbers are compared by their exact numeric value
  whatever their type (\<^verbatim>\<open>1 == 1.0\<close>), strings by content, \<^verbatim>\<open>None\<close> equals itself only.
  Equal objects have equal hashes, so the same relation decides whether a value is a key of
  a \<^verbatim>\<open>dict\<close>.
\<close>

fun py_eq :: "pyvalue \<Rightarrow> pyvalue \<Rightarrow> bool" where
  "py_eq VNone VNone = True"
| "py_eq (VInt a) (VInt b) = (a = b)"
| "py_eq (VInt a) (VFloat g) = (g = Finite (of_int a))"
| "py_eq (VFloat f) (VInt b) = (f = Finite (of_int b))"
| "py_eq (VFloat f) (VFloat g) = (f = g)"
| "py_eq (VStr s) (VStr u) = (s = u)"
| "py_eq _ _ = False"

section \<open>Dictionaries with string keys\<close>

text \<open>
  A \<^verbatim>\<open>dict\<close> keeps its keys in insertion order and holds each key once. It is an
  association list with distinct keys: \<^term>\<open>map_of d k\<close> is \<^verbatim>\<open>d.get(k)\<close>,
  \<^term>\<open>AList.update k v d\<close> is \<^verbatim>\<open>d[k] = v\<close> (an existing key keeps its place, a new key
  goes to the end), \<^term>\<open>AList.map_entry k f d\<close> changes the entry of \<open>k\<close> when there is one.
\<close>

type_synonym 'v dict = "(string \<times> 'v) list"

type_synonym Row = "pyvalue dict"

text \<open>\<^verbatim>\<open>a == b\<close> on two rows: the same keys, with equal values.\<close>

definition dict_eq :: "Row \<Rightarrow> Row \<Rightarrow> bool" where
  "dict_eq a b \<longleftrightarrow>
     set (map fst a) = set (map fst b) \<and>
     list_all (\<lambda>k. case (map_of a k, map_of b k) of
                      (Some x, Some y) \<Rightarrow> py_eq x y
                    | _ \<Rightarrow> False) (map fst a)"

section \<open>rdbms.py: schema types\<close>

text \<open>\<^verbatim>\<open>DataType.INT\<close>, \<^verbatim>\<open>DataType.TEXT\<close>, \<^verbatim>\<open>DataType.FLOAT\<close>.\<close>

datatype DataType = DataType_INT | DataType_TEXT | DataType_FLOAT

datatype Constraint = PRIMARY_KEY | UNIQUE | NONE

record Column =
  name :: string
  data_type :: DataType
  constraint :: Constraint
  nullable :: bool

text \<open>\<^verbatim>\<open>isinstance(value, int)\<close>, \<^verbatim>\<open>isinstance(value, str)\<close>, \<^verbatim>\<open>isinstance(value, float)\<close>.\<close>

fun is_int :: "pyvalue \<Rightarrow> bool" where
  "is_int (VInt _) = True"
| "is_int _ = False"

fun is_str :: "pyvalue \<Rightarrow> bool" where
  "is_str (VStr _) = True"
| "is_str _ = False"

fun is_float :: "pyvalue \<Rightarrow> bool" where
  "is_float (VFloat _) = True"
| "is_float _ = False"

definition validate_value :: "Column \<Rightarrow> pyvalue \<Rightarrow> bool" where
  "validate_value col v =
     (if v = VNone then nullable col
      else case data_type col of
             DataType_INT \<Rightarrow> is_int v
           | DataType_TEXT \<Rightarrow> is_str v
           | DataType_FLOAT \<Rightarrow> is_int v \<or> is_float v)"

section \<open>rdbms.py: Index\<close>

text \<open>
  \<^verbatim>\<open>Index.index\<close> is a \<^verbatim>\<open>dict\<close> from a value to the list of row ids that hold it. Its keys
  are compared with \<^const>\<open>py_eq\<close>. The row ids are stored as Python objects:
  \<^verbatim>\<open>insert_row\<close> stores the integer \<^verbatim>\<open>next_row_id\<close>, \<^verbatim>\<open>update_rows\<close> and \<^verbatim>\<open>delete_rows\<close>
  pass whatever \<^verbatim>\<open>row['_row_id']\<close> holds.
\<close>

type_synonym Index = "(pyvalue \<times> pyvalue list) list"

text \<open>\<^verbatim>\<open>Index.find\<close>: \<^verbatim>\<open>self.index.get(value, [])\<close>.\<close>

fun index_find :: "pyvalue \<Rightarrow> Index \<Rightarrow> pyvalue list" where
  "index_find v [] = []"
| "index_find v ((k, ids) # es) = (if py_eq k v then ids else index_find v es)"

text \<open>\<^verbatim>\<open>Index.add\<close>: a missing key is created with an empty list, then the id is appended.\<close>

fun index_add :: "pyvalue \<Rightarrow> pyvalue \<Rightarrow> Index \<Rightarrow> Index" where
  "index_add v row_id [] = [(v, [row_id])]"
| "index_add v row_id ((k, ids) # es) =
     (if py_eq k v then (k, ids @ [row_id]) # es else (k, ids) # index_add v row_id es)"

text \<open>\<^verbatim>\<open>list.remove(x)\<close>: drops the first element equal to \<open>x\<close>.\<close>

fun list_remove :: "pyvalue \<Rightarrow> pyvalue list \<Rightarrow> pyvalue list" where
  "list_remove x [] = []"
| "list_remove x (y # ys) = (if py_eq y x then ys else y # list_remove x ys)"

text \<open>
  \<^verbatim>\<open>Index.remove\<close>: when the value is a key and the id is in its list, the id is removed,
  and the key is deleted when its list becomes empty.
\<close>

fun index_remove :: "pyvalue \<Rightarrow> pyvalue \<Rightarrow> Index \<Rightarrow> Index" where
  "index_remove v row_id [] = []"
| "index_remove v row_id ((k, ids) # es) =
     (if py_eq k v then
        (if list_ex (\<lambda>x. py_eq x row_id) ids then
           (if list_remove row_id ids = [] then es else (k, list_remove row_id ids) # es)
         else (k, ids) # es)
      else (k, ids) # index_remove v row_id es)"

section \<open>rdbms.py: Table\<close>

record Table =
  tbl_name :: string
  columns :: "Column dict"
  rows :: "Row list"
  indexes :: "Index dict"
  next_row_id :: int

text \<open>
  \<^verbatim>\<open>Table.__init__\<close>: the dict comprehension keeps the last column of each name, and an
  empty index is created for every column of the list that is a primary key or unique.
\<close>

definition new_table :: "string \<Rightarrow> Column list \<Rightarrow> Table" where
  "new_table n cols =
     \<lparr> tbl_name = n,
       columns = foldl (\<lambda>d col. AList.update (name col) col d) [] cols,
       rows = [],
       indexes = foldl (\<lambda>d col. if constraint col = PRIMARY_KEY \<or> constraint col = UNIQUE
                                   then AList.update (name col) [] d else d) [] cols,
       next_row_id = 1 \<rparr>"

text \<open>
  Every \<^verbatim>\<open>raise ValueError(...)\<close> of the storage layer is a constructor; \<open>KeyError\<close> is a
  subscript on a missing key, \<open>NotInList\<close> the \<^verbatim>\<open>ValueError\<close> of \<^verbatim>\<open>list.remove\<close>.
\<close>

datatype error =
    UnknownColumn string
  | InvalidValue string pyvalue
  | NullPrimaryKey string
  | PrimaryKeyViolation string pyvalue
  | UniqueViolation string pyvalue
  | KeyError string
  | NotInList
  | TableExists string
  | TableMissing string
  | InvalidCondition string
  | UnpackError string

text \<open>
  An operation returns what it returned or raised, and the table as it is afterwards: a
  \<^verbatim>\<open>raise\<close> leaves the table with every mutation made before it.
\<close>

text \<open>The first loop of \<^verbatim>\<open>insert_row\<close> (and of \<^verbatim>\<open>update_rows\<close>, per row): it only reads.\<close>

fun validate_values :: "Table \<Rightarrow> pyvalue dict \<Rightarrow> error option" where
  "validate_values t [] = None"
| "validate_values t ((c, v) # vs) =
     (case map_of (columns t) c of
        None \<Rightarrow> Some (UnknownColumn c)
      | Some col \<Rightarrow>
          if \<not> validate_value col v then Some (InvalidValue c v)
          else validate_values t vs)"

text \<open>
  The constraint check of one column and one value (lines 98-110, and again 174-182):
  \<^verbatim>\<open>self.columns[c]\<close> and \<^verbatim>\<open>self.indexes[c]\<close> are subscripts.
\<close>

definition check_constraint :: "Table \<Rightarrow> string \<Rightarrow> pyvalue \<Rightarrow> error option" where
  "check_constraint t c v =
     (case map_of (columns t) c of
        None \<Rightarrow> Some (KeyError c)
      | Some col \<Rightarrow>
          if constraint col = PRIMARY_KEY then
            (if v = VNone then Some (NullPrimaryKey c)
             else case map_of (indexes t) c of
                    None \<Rightarrow> Some (KeyError c)
                  | Some idx \<Rightarrow>
                      if index_find v idx \<noteq> [] then Some (PrimaryKeyViolation c v) else None)
          else if constraint col = UNIQUE \<and> v \<noteq> VNone then
            (case map_of (indexes t) c of
               None \<Rightarrow> Some (KeyError c)
             | Some idx \<Rightarrow>
                 if index_find v idx \<noteq> [] then Some (UniqueViolation c v) else None)
          else None)"

fun check_constraints :: "Table \<Rightarrow> pyvalue dict \<Rightarrow> error option" where
  "check_constraints t [] = None"
| "check_constraints t ((c, v) # vs) =
     (case check_constraint t c v of
        Some e \<Rightarrow> Some e
      | None \<Rightarrow> check_constraints t vs)"

text \<open>
  The new row: \<^verbatim>\<open>{'_row_id': self.next_row_id}\<close>, then one assignment per schema column,
  \<^verbatim>\<open>values.get(col_name, None)\<close>.
\<close>

definition get_or_none :: "pyvalue dict \<Rightarrow> string \<Rightarrow> pyvalue" where
  "get_or_none d k = (case map_of d k of None \<Rightarrow> VNone | Some v \<Rightarrow> v)"

definition new_row :: "Table \<Rightarrow> pyvalue dict \<Rightarrow> Row" where
  "new_row t vals =
     foldl (\<lambda>row c. AList.update c (get_or_none vals c) row)
       [(''_row_id'', VInt (next_row_id t))] (map fst (columns t))"

text \<open>The last loop of \<^verbatim>\<open>insert_row\<close>: the id goes into the index of every supplied column
  that has one.\<close>

fun add_to_indexes :: "pyvalue \<Rightarrow> pyvalue dict \<Rightarrow> Index dict \<Rightarrow> Index dict" where
  "add_to_indexes row_id [] ix = ix"
| "add_to_indexes row_id ((c, v) # vs) ix =
     add_to_indexes row_id vs (AList.map_entry c (index_add v row_id) ix)"

definition insert_row :: "pyvalue dict \<Rightarrow> Table \<Rightarrow> (error + int) \<times> Table" where
  "insert_row vals t =
     (case validate_values t vals of
        Some e \<Rightarrow> (Inl e, t)
      | None \<Rightarrow>
         (case check_constraints t vals of
            Some e \<Rightarrow> (Inl e, t)
          | None \<Rightarrow>
              let t1 = t\<lparr>rows := rows t @ [new_row t vals]\<rparr>;
                  row_id = next_row_id t1;
                  t2 = t1\<lparr>next_row_id := next_row_id t1 + 1\<rparr>;
                  t3 = t2\<lparr>indexes := add_to_indexes (VInt row_id) vals (indexes t2)\<rparr>
              in (Inr row_id, t3)))"

text \<open>
  \<^verbatim>\<open>find_rows\<close>. The conditions are an optional \<^verbatim>\<open>dict\<close>; \<^verbatim>\<open>not conditions\<close> holds for
  \<^verbatim>\<open>None\<close> and for the empty \<^verbatim>\<open>dict\<close>.
\<close>

type_synonym Conditions = "pyvalue dict option"

definition no_conditions :: "Conditions \<Rightarrow> bool" where
  "no_conditions conds \<longleftrightarrow> conds = None \<or> conds = Some []"

definition row_matches :: "pyvalue dict \<Rightarrow> Row \<Rightarrow> bool" where
  "row_matches conds row =
     list_all (\<lambda>(c, v). case map_of row c of None \<Rightarrow> False | Some x \<Rightarrow> py_eq x v) conds"

definition find_rows :: "Conditions \<Rightarrow> Table \<Rightarrow> Row list" where
  "find_rows conds t =
     (if no_conditions conds then rows t
      else filter (row_matches (the conds)) (rows t))"

text \<open>
  \<^verbatim>\<open>update_rows\<close> mutates the row objects that \<^verbatim>\<open>find_rows\<close> returned. A row object is named
  by its position in \<^verbatim>\<open>self.rows\<close>, which no update changes: \<open>find_row_positions\<close> is
  \<^verbatim>\<open>find_rows\<close> returning positions.
\<close>

definition find_row_positions :: "Conditions \<Rightarrow> Table \<Rightarrow> nat list" where
  "find_row_positions conds t =
     (if no_conditions conds then [0 ..< length (rows t)]
      else filter (\<lambda>i. row_matches (the conds) (rows t ! i)) [0 ..< length (rows t)])"

text \<open>
  The second inner loop of \<^verbatim>\<open>update_rows\<close>, for the row at position \<open>i\<close> whose
  \<^verbatim>\<open>row['_row_id']\<close> was read into \<open>row_id\<close> before: per column, skip an unchanged value;
  otherwise remove the old index entry, check the constraint, assign, add the new entry.
\<close>

fun update_columns :: "pyvalue \<Rightarrow> nat \<Rightarrow> pyvalue dict \<Rightarrow> Table \<Rightarrow> (error + unit) \<times> Table" where
  "update_columns row_id i [] t = (Inr (), t)"
| "update_columns row_id i ((c, new_value) # us) t =
     (case map_of (columns t) c of
        None \<Rightarrow> (Inl (KeyError c), t)
      | Some column \<Rightarrow>
         (case map_of (rows t ! i) c of
            None \<Rightarrow> (Inl (KeyError c), t)
          | Some old_value \<Rightarrow>
              if py_eq old_value new_value then update_columns row_id i us t
              else
                let t1 = t\<lparr>indexes := AList.map_entry c (index_remove old_value row_id) (indexes t)\<rparr>
                in (case check_constraint t1 c new_value of
                      Some e \<Rightarrow> (Inl e, t1)
                    | None \<Rightarrow>
                        let t2 = t1\<lparr>rows := (rows t1)[i := AList.update c new_value (rows t1 ! i)]\<rparr>;
                            t3 = t2\<lparr>indexes := AList.map_entry c (index_add new_value row_id) (indexes t2)\<rparr>
                        in update_columns row_id i us t3)))"

text \<open>The outer loop of \<^verbatim>\<open>update_rows\<close> over the matched rows, with the running count.\<close>

fun update_each :: "nat list \<Rightarrow> pyvalue dict \<Rightarrow> Table \<Rightarrow> nat \<Rightarrow> (error + nat) \<times> Table" where
  "update_each [] us t n = (Inr n, t)"
| "update_each (i # is) us t n =
     (case map_of (rows t ! i) ''_row_id'' of
        None \<Rightarrow> (Inl (KeyError ''_row_id''), t)
      | Some row_id \<Rightarrow>
         (case validate_values t us of
            Some e \<Rightarrow> (Inl e, t)
          | None \<Rightarrow>
             (case update_columns row_id i us t of
                (Inl e, t') \<Rightarrow> (Inl e, t')
              | (Inr _, t') \<Rightarrow> update_each is us t' (n + 1))))"

definition update_rows :: "Conditions \<Rightarrow> pyvalue dict \<Rightarrow> Table \<Rightarrow> (error + nat) \<times> Table" where
  "update_rows conds updates t = update_each (find_row_positions conds t) updates t 0"

text \<open>\<^verbatim>\<open>self.rows.remove(row)\<close>: drops the first row equal to \<open>row\<close>.\<close>

fun rows_remove :: "Row \<Rightarrow> Row list \<Rightarrow> Row list" where
  "rows_remove row [] = []"
| "rows_remove row (r # rs) = (if dict_eq r row then rs else r # rows_remove row rs)"

text \<open>
  The loop of \<^verbatim>\<open>delete_rows\<close>. No row is mutated, so the matched rows are their values.
\<close>

definition remove_from_indexes :: "Row \<Rightarrow> pyvalue \<Rightarrow> Index dict \<Rightarrow> Index dict" where
  "remove_from_indexes row row_id ix =
     map (\<lambda>(c, idx). (c, case map_of row c of
                            None \<Rightarrow> idx
                          | Some v \<Rightarrow> index_remove v row_id idx)) ix"

fun delete_each :: "Row list \<Rightarrow> Table \<Rightarrow> nat \<Rightarrow> (error + nat) \<times> Table" where
  "delete_each [] t n = (Inr n, t)"
| "delete_each (row # rs) t n =
     (case map_of row ''_row_id'' of
        None \<Rightarrow> (Inl (KeyError ''_row_id''), t)
      | Some row_id \<Rightarrow>
          let t1 = t\<lparr>indexes := remove_from_indexes row row_id (indexes t)\<rparr>
          in if \<not> list_ex (\<lambda>r. dict_eq r row) (rows t1) then (Inl NotInList, t1)
             else delete_each rs (t1\<lparr>rows := rows_remove row (rows t1)\<rparr>) (n + 1))"

definition delete_rows :: "Conditions \<Rightarrow> Table \<Rightarrow> (error + nat) \<times> Table" where
  "delete_rows conds t = delete_each (find_rows conds t) t 0"

section \<open>Python strings\<close>

text \<open>
  A \<^verbatim>\<open>str\<close> is a list of characters. \<^verbatim>\<open>str.isspace\<close> on one character, for the
  characters below 256: tab to carriage return, the four separators 28 to 31, the space,
  NEL and the no-break space.
\<close>

definition py_isspace :: "char \<Rightarrow> bool" where
  "py_isspace c \<longleftrightarrow> (of_char c :: nat) \<in> set [9, 10, 11, 12, 13, 28, 29, 30, 31, 32, 133, 160]"

text \<open>\<^verbatim>\<open>s.strip()\<close>.\<close>

definition strip :: "string \<Rightarrow> string" where
  "strip s = rev (dropWhile py_isspace (rev (dropWhile py_isspace s)))"

text \<open>
  \<^verbatim>\<open>s.upper()\<close> on ASCII letters; any other character is kept. Beyond ASCII Python's
  \<^verbatim>\<open>upper\<close> may change a character, but never into one of the letters N, U, L alone, so
  the comparison with \<^verbatim>\<open>'NULL'\<close> is not affected.
\<close>

definition char_upper :: "char \<Rightarrow> char" where
  "char_upper c =
     (if 97 \<le> (of_char c :: nat) \<and> (of_char c :: nat) \<le> 122
      then char_of ((of_char c :: nat) - 32) else c)"

definition upper :: "string \<Rightarrow> string" where
  "upper s = map char_upper s"

definition startswith :: "string \<Rightarrow> string \<Rightarrow> bool" where
  "startswith s p \<longleftrightarrow> take (length p) s = p"

definition endswith :: "string \<Rightarrow> string \<Rightarrow> bool" where
  "endswith s p \<longleftrightarrow> length p \<le> length s \<and> drop (length s - length p) s = p"

text \<open>
  \<^verbatim>\<open>s.split(sep)\<close> and \<^verbatim>\<open>s.replace(old, new)\<close> scan from the left and take every
  occurrence that does not overlap an earlier one. The separator and \<open>old\<close> are never
  empty in this program (Python rejects an empty separator).
\<close>

function split_str :: "string \<Rightarrow> string \<Rightarrow> string list" where
  "split_str sep s =
     (if s = [] then [[]]
      else if sep \<noteq> [] \<and> take (length sep) s = sep
      then [] # split_str sep (drop (length sep) s)
      else (case split_str sep (tl s) of
              [] \<Rightarrow> [[hd s]]
            | p # ps \<Rightarrow> (hd s # p) # ps))"
  by pat_completeness auto
termination
  by (relation "measure (\<lambda>(sep, s). length s)") auto

declare split_str.simps [simp del]

function replace :: "string \<Rightarrow> string \<Rightarrow> string \<Rightarrow> string" where
  "replace old new s =
     (if s = [] then []
      else if old \<noteq> [] \<and> take (length old) s = old
      then new @ replace old new (drop (length old) s)
      else hd s # replace old new (tl s))"
  by pat_completeness auto
termination
  by (relation "measure (\<lambda>(old, new, s). length s)") auto

declare replace.simps [simp del]

text \<open>\<^verbatim>\<open>s.split(c, 1)\<close> for a string that contains the character \<open>c\<close>: the text before its
  first occurrence and the text after it.\<close>

definition split_once :: "char \<Rightarrow> string \<Rightarrow> string \<times> string" where
  "split_once c s = (takeWhile (\<lambda>x. x \<noteq> c) s, tl (dropWhile (\<lambda>x. x \<noteq> c) s))"

subsection \<open>The builtins \<^verbatim>\<open>int\<close> and \<^verbatim>\<open>float\<close> on a string\<close>

text \<open>
  \<^verbatim>\<open>int(s)\<close> accepts, between optional whitespace, an optional sign and decimal digits
  with single underscores between digits. \<open>None\<close> is the \<^verbatim>\<open>ValueError\<close>.
\<close>

definition is_digit :: "char \<Rightarrow> bool" where
  "is_digit c \<longleftrightarrow> 48 \<le> (of_char c :: nat) \<and> (of_char c :: nat) \<le> 57"

fun digitpart :: "string \<Rightarrow> bool" where
  "digitpart [] = False"
| "digitpart [c] = is_digit c"
| "digitpart (c # d # cs) =
     (is_digit c \<and> (if d = CHR ''_'' then digitpart cs else digitpart (d # cs)))"

definition digits_value :: "string \<Rightarrow> nat" where
  "digits_value s =
     foldl (\<lambda>a c. 10 * a + ((of_char c :: nat) - 48)) 0 (filter (\<lambda>c. c \<noteq> CHR ''_'') s)"

definition strip_sign :: "string \<Rightarrow> int \<times> string" where
  "strip_sign s =
     (case s of
        [] \<Rightarrow> (1, [])
      | c # cs \<Rightarrow> if c = CHR ''+'' then (1, cs) else if c = CHR ''-'' then (- 1, cs) else (1, s))"

definition int_of_str :: "string \<Rightarrow> int option" where
  "int_of_str s =
     (let (sg, body) = strip_sign (strip s)
      in if digitpart body then Some (sg * int (digits_value body)) else None)"

text \<open>
  Rounding a positive rational to the nearest double, ties to even: 53 significant bits,
  the least exponent of a unit in the last place is -1074, and a result of \<open>2^1024\<close> or more
  is infinite.
\<close>

definition round_half_even :: "rat \<Rightarrow> int" where
  "round_half_even q =
     (let f = \<lfloor>q\<rfloor>; r = q - of_int f
      in if r < 1 / 2 then f else if 1 / 2 < r then f + 1 else if even f then f else f + 1)"

definition to_double :: "rat \<Rightarrow> pyfloat" where
  "to_double q =
     (if q = 0 then Finite 0
      else
        let a = \<bar>q\<bar>;
            (n, d) = quotient_of a;
            l = int (floorlog 2 (nat n)) - int (floorlog 2 (nat d));
            e = (if 2 powi l \<le> a then l else l - 1);
            k = max (e - 52) (- 1074);
            r = of_int (round_half_even (a / 2 powi k)) * 2 powi k
        in if 2 ^ 1024 \<le> r then (if 0 < q then PosInf else NegInf)
           else Finite (if 0 < q then r else - r))"

text \<open>
  \<^verbatim>\<open>float(s)\<close> on a decimal literal: an optional sign, digits with a dot (a digit on at
  least one side of it) or digits alone, and an optional exponent. The spellings of
  infinity and NaN have no dot and never reach \<^verbatim>\<open>float\<close> in this program.
\<close>

definition is_exp_char :: "char \<Rightarrow> bool" where
  "is_exp_char c \<longleftrightarrow> c = CHR ''e'' \<or> c = CHR ''E''"

definition float_of_str :: "string \<Rightarrow> pyfloat option" where
  "float_of_str s =
     (let (sg, body) = strip_sign (strip s);
          mant = takeWhile (\<lambda>c. \<not> is_exp_char c) body;
          rest = dropWhile (\<lambda>c. \<not> is_exp_char c) body;
          (esg, ebody) = strip_sign (tl rest);
          ip = takeWhile (\<lambda>c. c \<noteq> CHR ''.'') mant;
          dotted = dropWhile (\<lambda>c. c \<noteq> CHR ''.'') mant;
          fp = tl dotted;
          mant_ok = (if dotted = [] then digitpart ip
                     else (ip = [] \<or> digitpart ip) \<and> (fp = [] \<or> digitpart fp)
                          \<and> \<not> (ip = [] \<and> fp = []));
          exp_ok = (rest = [] \<or> digitpart ebody);
          ex = (if rest = [] then 0 else esg * int (digits_value ebody));
          scale = ex - int (length (filter (\<lambda>c. c \<noteq> CHR ''_'') fp))
      in if mant_ok \<and> exp_ok
         then Some (to_double (of_int sg * of_nat (digits_value (ip @ fp)) * 10 powi scale))
         else None)"

section \<open>sql\_parser.py: value literals and condition clauses\<close>

text \<open>
  \<^verbatim>\<open>_parse_value\<close>. The two builtins it calls are arguments, \<open>None\<close> standing for their
  \<^verbatim>\<open>ValueError\<close>, so that what is proved does not depend on how a numeral is read;
  \<^const>\<open>float_of_str\<close> and \<^const>\<open>int_of_str\<close> are the builtins on the literals of this
  program. \<^verbatim>\<open>value_str[1:-1]\<close> is \<^term>\<open>butlast (tl value_str)\<close>.
\<close>

definition parse_value ::
  "(string \<Rightarrow> pyfloat option) \<Rightarrow> (string \<Rightarrow> int option) \<Rightarrow> string \<Rightarrow> pyvalue" where
  "parse_value to_float to_int s =
     (let value_str = strip s
      in if upper value_str = ''NULL'' then VNone
         else if startswith value_str [CHR 0x27] \<and> endswith value_str [CHR 0x27]
         then VStr (replace [CHR 0x27, CHR 0x27] [CHR 0x27] (butlast (tl value_str)))
         else if CHR ''.'' \<in> set value_str
         then (case to_float value_str of Some f \<Rightarrow> VFloat f | None \<Rightarrow> VStr value_str)
         else (case to_int value_str of Some i \<Rightarrow> VInt i | None \<Rightarrow> VStr value_str))"

text \<open>The loop of \<^verbatim>\<open>_parse_conditions\<close> over the stripped parts, with the dict built so
  far.\<close>

fun parse_parts ::
  "(string \<Rightarrow> pyfloat option) \<Rightarrow> (string \<Rightarrow> int option) \<Rightarrow> string list \<Rightarrow> pyvalue dict
     \<Rightarrow> error + pyvalue dict" where
  "parse_parts to_float to_int [] conditions = Inr conditions"
| "parse_parts to_float to_int (part # parts) conditions =
     (if CHR ''='' \<notin> set part then Inl (InvalidCondition part)
      else
        let (col, val) = split_once CHR ''='' part
        in parse_parts to_float to_int parts
             (AList.update (strip col) (parse_value to_float to_int (strip val)) conditions))"

definition parse_conditions ::
  "(string \<Rightarrow> pyfloat option) \<Rightarrow> (string \<Rightarrow> int option) \<Rightarrow> string \<Rightarrow> error + pyvalue dict" where
  "parse_conditions to_float to_int conditions_str =
     parse_parts to_float to_int (map strip (split_str ''AND'' conditions_str)) []"

section \<open>database\_engine.py: the executor\<close>

text \<open>\<^verbatim>\<open>Database.tables\<close>, and \<^verbatim>\<open>Database.get_table\<close>.\<close>

type_synonym Database = "Table dict"

definition get_table :: "Database \<Rightarrow> string \<Rightarrow> error + Table" where
  "get_table db n = (case map_of db n of None \<Rightarrow> Inl (TableMissing n) | Some t \<Rightarrow> Inr t)"

text \<open>
  The message of a result is a formatted string; its constructor names the format and
  carries the values that are formatted into it.
\<close>

datatype message =
    Inserted string int
  | Selected nat string
  | SelectedJoin nat string string
  | FailedInsert error
  | FailedSelect error
  | FailedJoin error

record QueryResult =
  success :: bool
  message :: message
  data :: "Row list option"
  affected_rows :: nat

record SelectCommand =
  table_name :: string
  sel_columns :: "string list"
  where_conditions :: Conditions
  join_table :: "string option"
  join_conditions :: Conditions

text \<open>
  \<^verbatim>\<open>_execute_insert\<close>, on the two fields of an \<^verbatim>\<open>InsertCommand\<close>. The table object
  belongs to the database, so the database afterwards holds the table as \<^verbatim>\<open>insert_row\<close>
  left it.
\<close>

definition execute_insert :: "Database \<Rightarrow> string \<Rightarrow> pyvalue dict \<Rightarrow> QueryResult \<times> Database" where
  "execute_insert db tn vals =
     (case get_table db tn of
        Inl e \<Rightarrow>
          (\<lparr>success = False, message = FailedInsert e, data = None, affected_rows = 0\<rparr>, db)
      | Inr table \<Rightarrow>
         (case insert_row vals table of
            (Inl e, table') \<Rightarrow>
              (\<lparr>success = False, message = FailedInsert e, data = None, affected_rows = 0\<rparr>,
               AList.update tn table' db)
          | (Inr row_id, table') \<Rightarrow>
              (\<lparr>success = True, message = Inserted tn row_id, data = None, affected_rows = 1\<rparr>,
               AList.update tn table' db)))"

text \<open>The column filter of both select paths: the requested keys that the row has.\<close>

definition filter_columns :: "string list \<Rightarrow> Row \<Rightarrow> Row" where
  "filter_columns cols row =
     foldl (\<lambda>filtered_row col. case map_of row col of
                                  None \<Rightarrow> filtered_row
                                | Some v \<Rightarrow> AList.update col v filtered_row) [] cols"

text \<open>
  One loop over a condition dict for a pair of rows (the join conditions, then the WHERE
  conditions, are the same loop): \<open>Inr False\<close> is the \<^verbatim>\<open>break\<close> with the flag cleared,
  \<open>Inl\<close> the failed unpacking of \<^verbatim>\<open>col.split('.')\<close>.
\<close>

fun pair_matches ::
  "string \<Rightarrow> string \<Rightarrow> Row \<Rightarrow> Row \<Rightarrow> pyvalue dict \<Rightarrow> error + bool" where
  "pair_matches tn jt left_row right_row [] = Inr True"
| "pair_matches tn jt left_row right_row ((col, v) # cs) =
     (if CHR ''.'' \<in> set col then
        (case split_str ''.'' col of
           [tname, col_name] \<Rightarrow>
             if tname = tn then
               (if \<not> py_eq (get_or_none left_row col_name) v then Inr False
                else pair_matches tn jt left_row right_row cs)
             else if tname = jt then
               (if \<not> py_eq (get_or_none right_row col_name) v then Inr False
                else pair_matches tn jt left_row right_row cs)
             else pair_matches tn jt left_row right_row cs
         | _ \<Rightarrow> Inl (UnpackError col))
      else if (case map_of left_row col of None \<Rightarrow> False | Some x \<Rightarrow> \<not> py_eq x v)
        then Inr False
      else if (case map_of right_row col of None \<Rightarrow> False | Some x \<Rightarrow> \<not> py_eq x v)
        then Inr False
      else pair_matches tn jt left_row right_row cs)"

text \<open>The merged row: every field but \<^verbatim>\<open>_row_id\<close>, under the key \<^verbatim>\<open>table.field\<close>.\<close>

fun merge_into :: "string \<Rightarrow> Row \<Rightarrow> Row \<Rightarrow> Row" where
  "merge_into tn [] joined_row = joined_row"
| "merge_into tn ((col, v) # items) joined_row =
     merge_into tn items
       (if col \<noteq> ''_row_id'' then AList.update (tn @ ''.'' @ col) v joined_row
        else joined_row)"

definition merge_rows :: "string \<Rightarrow> string \<Rightarrow> Row \<Rightarrow> Row \<Rightarrow> Row" where
  "merge_rows tn jt left_row right_row = merge_into jt right_row (merge_into tn left_row [])"

text \<open>The body of the two nested loops for one pair: \<open>None\<close> when the pair is skipped.\<close>

definition join_pair ::
  "string \<Rightarrow> string \<Rightarrow> Conditions \<Rightarrow> Conditions \<Rightarrow> Row \<Rightarrow> Row \<Rightarrow> error + Row option" where
  "join_pair tn jt jconds wconds left_row right_row =
     (case (if no_conditions jconds then Inr True
            else pair_matches tn jt left_row right_row (the jconds)) of
        Inl e \<Rightarrow> Inl e
      | Inr False \<Rightarrow> Inr None
      | Inr True \<Rightarrow>
         (case (if no_conditions wconds then Inr True
                else pair_matches tn jt left_row right_row (the wconds)) of
            Inl e \<Rightarrow> Inl e
          | Inr False \<Rightarrow> Inr None
          | Inr True \<Rightarrow> Inr (Some (merge_rows tn jt left_row right_row))))"

fun join_inner ::
  "string \<Rightarrow> string \<Rightarrow> Conditions \<Rightarrow> Conditions \<Rightarrow> Row \<Rightarrow> Row list \<Rightarrow> Row list
     \<Rightarrow> error + Row list" where
  "join_inner tn jt jconds wconds left_row [] joined_rows = Inr joined_rows"
| "join_inner tn jt jconds wconds left_row (right_row # rs) joined_rows =
     (case join_pair tn jt jconds wconds left_row right_row of
        Inl e \<Rightarrow> Inl e
      | Inr None \<Rightarrow> join_inner tn jt jconds wconds left_row rs joined_rows
      | Inr (Some joined_row) \<Rightarrow>
          join_inner tn jt jconds wconds left_row rs (joined_rows @ [joined_row]))"

fun join_outer ::
  "string \<Rightarrow> string \<Rightarrow> Conditions \<Rightarrow> Conditions \<Rightarrow> Row list \<Rightarrow> Row list \<Rightarrow> Row list
     \<Rightarrow> error + Row list" where
  "join_outer tn jt jconds wconds [] right_rows joined_rows = Inr joined_rows"
| "join_outer tn jt jconds wconds (left_row # ls) right_rows joined_rows =
     (case join_inner tn jt jconds wconds left_row right_rows joined_rows of
        Inl e \<Rightarrow> Inl e
      | Inr joined_rows' \<Rightarrow> join_outer tn jt jconds wconds ls right_rows joined_rows')"

text \<open>\<^verbatim>\<open>_execute_join_select\<close>; it is reached only with a join table.\<close>

definition execute_join_select :: "Database \<Rightarrow> SelectCommand \<Rightarrow> QueryResult" where
  "execute_join_select db command =
     (let tn = table_name command; jt = (case join_table command of None \<Rightarrow> [] | Some j \<Rightarrow> j)
      in case get_table db tn of
           Inl e \<Rightarrow> \<lparr>success = False, message = FailedJoin e, data = None, affected_rows = 0\<rparr>
         | Inr left_table \<Rightarrow>
            (case get_table db jt of
               Inl e \<Rightarrow> \<lparr>success = False, message = FailedJoin e, data = None, affected_rows = 0\<rparr>
             | Inr right_table \<Rightarrow>
                (case join_outer tn jt (join_conditions command) (where_conditions command)
                        (find_rows None left_table) (find_rows None right_table) [] of
                   Inl e \<Rightarrow>
                     \<lparr>success = False, message = FailedJoin e, data = None, affected_rows = 0\<rparr>
                 | Inr joined_rows \<Rightarrow>
                     let joined_rows' =
                           (if sel_columns command \<noteq> [''*'']
                            then map (filter_columns (sel_columns command)) joined_rows
                            else joined_rows)
                     in \<lparr>success = True,
                         message = SelectedJoin (length joined_rows') tn jt,
                         data = Some joined_rows', affected_rows = 0\<rparr>)))"

text \<open>\<^verbatim>\<open>_execute_select\<close>. \<^verbatim>\<open>if command.join_table\<close> holds for a non-empty name.\<close>

definition execute_select :: "Database \<Rightarrow> SelectCommand \<Rightarrow> QueryResult" where
  "execute_select db command =
     (case get_table db (table_name command) of
        Inl e \<Rightarrow> \<lparr>success = False, message = FailedSelect e, data = None, affected_rows = 0\<rparr>
      | Inr table \<Rightarrow>
          if join_table command \<noteq> None \<and> join_table command \<noteq> Some []
          then execute_join_select db command
          else
            let found = find_rows (where_conditions command) table;
                found' = (if sel_columns command \<noteq> [''*'']
                          then map (filter_columns (sel_columns command)) found
                          else found)
            in \<lparr>success = True, message = Selected (length found') (table_name command),
                data = Some found', affected_rows = 0\<rparr>)"

section \<open>Sequences of statements\<close>

text \<open>
  The executor catches every exception of the storage layer and reports it, so a
  statement that fails leaves the table as the \<^verbatim>\<open>raise\<close> left it and the next statement
  runs on that table.
\<close>

datatype operation =
    Insert "pyvalue dict"
  | Update Conditions "pyvalue dict"
  | Delete Conditions

fun run_operation :: "operation \<Rightarrow> Table \<Rightarrow> Table" where
  "run_operation (Insert vals) t = snd (insert_row vals t)"
| "run_operation (Update conds updates) t = snd (update_rows conds updates t)"
| "run_operation (Delete conds) t = snd (delete_rows conds t)"

definition run :: "operation list \<Rightarrow> Table \<Rightarrow> Table" where
  "run ops t = foldl (\<lambda>t' op. run_operation op t') t ops"

section \<open>The words of the specification\<close>

text \<open>
  What the specification says of a value literal, for comparison with
  \<^const>\<open>parse_value\<close>: \<open>NULL\<close> in any letter case; a literal wrapped in single quotes,
  whose enclosed text has every pair of quotes replaced by one quote; a literal with a
  dot, read as a float; any other literal, read as an integer; and the literal itself as
  text when the numeral is not accepted. A literal is wrapped in single quotes when it
  opens with a quote and closes with another one, so it has at least two characters: the
  literal that is one quote alone encloses nothing and is not wrapped.
\<close>

definition spells_null :: "string \<Rightarrow> bool" where
  "spells_null t =
     (case t of
        [a, b, c, d] \<Rightarrow>
          (a = CHR ''n'' \<or> a = CHR ''N'') \<and> (b = CHR ''u'' \<or> b = CHR ''U'')
          \<and> (c = CHR ''l'' \<or> c = CHR ''L'') \<and> (d = CHR ''l'' \<or> d = CHR ''L'')
      | _ \<Rightarrow> False)"

definition wrapped_in_quotes :: "string \<Rightarrow> bool" where
  "wrapped_in_quotes t \<longleftrightarrow> 2 \<le> length t \<and> hd t = CHR 0x27 \<and> last t = CHR 0x27"

fun unescape_quotes :: "string \<Rightarrow> string" where
  "unescape_quotes (a # b # s) =
     (if a = CHR 0x27 \<and> b = CHR 0x27 then CHR 0x27 # unescape_quotes s
      else a # unescape_quotes (b # s))"
| "unescape_quotes s = s"

definition literal_value ::
  "(string \<Rightarrow> pyfloat option) \<Rightarrow> (string \<Rightarrow> int option) \<Rightarrow> string \<Rightarrow> pyvalue" where
  "literal_value to_float to_int t =
     (if spells_null t then VNone
      else if wrapped_in_quotes t then VStr (unescape_quotes (butlast (tl t)))
      else if CHR ''.'' \<in> set t
      then (case to_float t of Some f \<Rightarrow> VFloat f | None \<Rightarrow> VStr t)
      else (case to_int t of Some i \<Rightarrow> VInt i | None \<Rightarrow> VStr t))"

text \<open>
  What holds of a condition clause: it is cut at the occurrences of the three characters
  \<open>AND\<close>, each stripped piece gives its key and value by the text before and after its
  first \<open>=\<close>, and the pairs are stored in order, a later key replacing an earlier equal
  one. \<open>has_substring sub s\<close> is \<^verbatim>\<open>sub in s\<close>, and \<open>join_str\<close> is \<^verbatim>\<open>sep.join(parts)\<close>.
\<close>

fun has_substring :: "string \<Rightarrow> string \<Rightarrow> bool" where
  "has_substring sub [] = (sub = [])"
| "has_substring sub (c # s) = (take (length sub) (c # s) = sub \<or> has_substring sub s)"

definition conjunct_pair ::
  "(string \<Rightarrow> pyfloat option) \<Rightarrow> (string \<Rightarrow> int option) \<Rightarrow> string \<Rightarrow> string \<times> pyvalue" where
  "conjunct_pair to_float to_int p =
     (strip (takeWhile (\<lambda>c. c \<noteq> CHR ''='') p),
      parse_value to_float to_int (strip (tl (dropWhile (\<lambda>c. c \<noteq> CHR ''='') p))))"

definition dict_of_pairs :: "(string \<times> pyvalue) list \<Rightarrow> pyvalue dict" where
  "dict_of_pairs ps = foldl (\<lambda>d (k, v). AList.update k v d) [] ps"

fun join_str :: "string \<Rightarrow> string list \<Rightarrow> string" where
  "join_str sep [] = []"
| "join_str sep [p] = p"
| "join_str sep (p # q # ps) = p @ sep @ join_str sep (q # ps)"

text \<open>
  What the specification says of a merged row of a join: its keys are the fields of the
  left row and of the right row, each prefixed with the name of its table and a dot, the
  internal identifier left out on both sides. \<open>prefixed_field tn row key\<close> is what the row
  of the table \<open>tn\<close> gives under \<open>key\<close>: the value of the field \<open>col\<close> when \<open>key\<close> is
  \<^verbatim>\<open>tn.col\<close> and \<open>col\<close> is a field other than \<^verbatim>\<open>_row_id\<close>, and nothing otherwise.
\<close>

definition prefixed_field :: "string \<Rightarrow> Row \<Rightarrow> string \<Rightarrow> pyvalue option" where
  "prefixed_field tn row key =
     (if take (length tn + 1) key = tn @ ''.'' \<and> drop (length tn + 1) key \<noteq> ''_row_id''
      then map_of row (drop (length tn + 1) key) else None)"

section \<open>insert\_row fails without a trace\<close>

text \<open>
  C10. When \<^verbatim>\<open>insert_row\<close> raises, whatever the error, the table afterwards is the table
  before: the same rows, the same indexes, the same \<^verbatim>\<open>next_row_id\<close>. Both loops that can
  raise run before the first mutation.
\<close>

theorem insert_row_atomic_on_failure:
  "fst (insert_row vals t) = Inl e \<Longrightarrow> snd (insert_row vals t) = t"
  by (auto simp: insert_row_def Let_def split: option.splits)

theorem insert_row_atomic_on_failure_witness:
  "fst (insert_row [(''id'', VInt 1)]
          (snd (insert_row [(''id'', VInt 1)]
             (new_table ''users''
                [\<lparr>name = ''id'', data_type = DataType_INT, constraint = PRIMARY_KEY,
                  nullable = False\<rparr>]))))
     = Inl (PrimaryKeyViolation ''id'' (VInt 1))
   \<and> snd (insert_row [(''id'', VInt 1)]
          (snd (insert_row [(''id'', VInt 1)]
             (new_table ''users''
                [\<lparr>name = ''id'', data_type = DataType_INT, constraint = PRIMARY_KEY,
                  nullable = False\<rparr>]))))
     = snd (insert_row [(''id'', VInt 1)]
             (new_table ''users''
                [\<lparr>name = ''id'', data_type = DataType_INT, constraint = PRIMARY_KEY,
                  nullable = False\<rparr>]))"
proof -
  have h: "fst (insert_row [(''id'', VInt 1)]
          (snd (insert_row [(''id'', VInt 1)]
             (new_table ''users''
                [\<lparr>name = ''id'', data_type = DataType_INT, constraint = PRIMARY_KEY,
                  nullable = False\<rparr>]))))
     = Inl (PrimaryKeyViolation ''id'' (VInt 1))"
    by code_simp
  show ?thesis
    by (rule conjI [OF h insert_row_atomic_on_failure [OF h]])
qed

section \<open>Inputs on which the code leaves the documented behaviour\<close>

text \<open>
  C1. \<^verbatim>\<open>SELECT *\<close> without WHERE and JOIN returns the stored row objects themselves. After
  one successful \<^verbatim>\<open>INSERT INTO t (id) VALUES (1)\<close> into \<^verbatim>\<open>t (id INT)\<close> the one mapping
  returned holds the inserted value and also the key \<^verbatim>\<open>_row_id\<close>; the join path drops that
  key, this path does not.
\<close>

theorem select_star_returns_row_id:
  "execute_select
     (snd (execute_insert
             [(''t'', new_table ''t''
                 [\<lparr>name = ''id'', data_type = DataType_INT, constraint = NONE, nullable = True\<rparr>])]
             ''t'' [(''id'', VInt 1)]))
     \<lparr>table_name = ''t'', sel_columns = [''*''], where_conditions = None,
      join_table = None, join_conditions = None\<rparr>
   = \<lparr>success = True, message = Selected 1 ''t'',
      data = Some [[(''_row_id'', VInt 1), (''id'', VInt 1)]], affected_rows = 0\<rparr>"
  by code_simp

text \<open>
  C3. On \<^verbatim>\<open>users (id INT PRIMARY_KEY)\<close> holding the ids 1 and 2, the update of id 1 to 2
  removes the index entry of 1 and then fails on the duplicate; the row keeps the value 1
  without an index entry, so the next insert of id 1 is accepted. Two live rows then hold
  the primary key 1.
\<close>

theorem primary_key_duplicated_after_failed_update:
  "fst (update_rows (Some [(''id'', VInt 1)]) [(''id'', VInt 2)]
          (run [Insert [(''id'', VInt 1)], Insert [(''id'', VInt 2)]]
             (new_table ''users''
                [\<lparr>name = ''id'', data_type = DataType_INT, constraint = PRIMARY_KEY,
                  nullable = False\<rparr>])))
     = Inl (PrimaryKeyViolation ''id'' (VInt 2))
   \<and> rows (run [Insert [(''id'', VInt 1)], Insert [(''id'', VInt 2)],
                Update (Some [(''id'', VInt 1)]) [(''id'', VInt 2)],
                Insert [(''id'', VInt 1)]]
           (new_table ''users''
              [\<lparr>name = ''id'', data_type = DataType_INT, constraint = PRIMARY_KEY,
                nullable = False\<rparr>]))
     = [[(''_row_id'', VInt 1), (''id'', VInt 1)],
        [(''_row_id'', VInt 2), (''id'', VInt 2)],
        [(''_row_id'', VInt 3), (''id'', VInt 1)]]"
  by code_simp

text \<open>
  C2. Two inputs after which a live row has no entry in the index of a column. On
  \<^verbatim>\<open>users (id INT PRIMARY_KEY)\<close> holding the ids 1 and 2, the update of id 1 to 2 fails
  after it has removed the index entry of 1: the live row 1 still holds the value 1, and
  the index of \<open>id\<close> has no entry for 1. On \<^verbatim>\<open>users (id INT PRIMARY_KEY, email TEXT UNIQUE)\<close>
  the insert of \<open>id = 1\<close> alone succeeds and fills \<open>email\<close> with \<^verbatim>\<open>None\<close>, for which the
  index of \<open>email\<close> gets no entry, whereas the insert that supplies \<open>email = None\<close> puts
  the row id under \<^verbatim>\<open>None\<close>.
\<close>

theorem index_entry_missing_for_live_row:
  "fst (update_rows (Some [(''id'', VInt 1)]) [(''id'', VInt 2)]
          (run [Insert [(''id'', VInt 1)], Insert [(''id'', VInt 2)]]
             (new_table ''users''
                [\<lparr>name = ''id'', data_type = DataType_INT, constraint = PRIMARY_KEY,
                  nullable = False\<rparr>])))
     = Inl (PrimaryKeyViolation ''id'' (VInt 2))
   \<and> rows (run [Insert [(''id'', VInt 1)], Insert [(''id'', VInt 2)],
                Update (Some [(''id'', VInt 1)]) [(''id'', VInt 2)]]
           (new_table ''users''
              [\<lparr>name = ''id'', data_type = DataType_INT, constraint = PRIMARY_KEY,
                nullable = False\<rparr>]))
     = [[(''_row_id'', VInt 1), (''id'', VInt 1)],
        [(''_row_id'', VInt 2), (''id'', VInt 2)]]
   \<and> indexes (run [Insert [(''id'', VInt 1)], Insert [(''id'', VInt 2)],
                   Update (Some [(''id'', VInt 1)]) [(''id'', VInt 2)]]
              (new_table ''users''
                 [\<lparr>name = ''id'', data_type = DataType_INT, constraint = PRIMARY_KEY,
                   nullable = False\<rparr>]))
     = [(''id'', [(VInt 2, [VInt 2])])]
   \<and> index_find (VInt 1) [(VInt 2, [VInt 2])] = []
   \<and> fst (insert_row [(''id'', VInt 1)]
            (new_table ''users''
               [\<lparr>name = ''id'', data_type = DataType_INT, constraint = PRIMARY_KEY,
                 nullable = False\<rparr>,
                \<lparr>name = ''email'', data_type = DataType_TEXT, constraint = UNIQUE,
                 nullable = True\<rparr>]))
     = Inr 1
   \<and> rows (run [Insert [(''id'', VInt 1)]]
           (new_table ''users''
              [\<lparr>name = ''id'', data_type = DataType_INT, constraint = PRIMARY_KEY,
                nullable = False\<rparr>,
               \<lparr>name = ''email'', data_type = DataType_TEXT, constraint = UNIQUE,
                nullable = True\<rparr>]))
     = [[(''_row_id'', VInt 1), (''id'', VInt 1), (''email'', VNone)]]
   \<and> indexes (run [Insert [(''id'', VInt 1)]]
              (new_table ''users''
                 [\<lparr>name = ''id'', data_type = DataType_INT, constraint = PRIMARY_KEY,
                   nullable = False\<rparr>,
                  \<lparr>name = ''email'', data_type = DataType_TEXT, constraint = UNIQUE,
                   nullable = True\<rparr>]))
     = [(''id'', [(VInt 1, [VInt 1])]), (''email'', [])]
   \<and> index_find VNone [] = []
   \<and> indexes (run [Insert [(''id'', VInt 1), (''email'', VNone)]]
              (new_table ''users''
                 [\<lparr>name = ''id'', data_type = DataType_INT, constraint = PRIMARY_KEY,
                   nullable = False\<rparr>,
                  \<lparr>name = ''email'', data_type = DataType_TEXT, constraint = UNIQUE,
                   nullable = True\<rparr>]))
     = [(''id'', [(VInt 1, [VInt 1])]), (''email'', [(VNone, [VInt 1])])]"
  by code_simp

text \<open>
  C4. The checks of \<^verbatim>\<open>insert_row\<close> run over the supplied columns only. An insert into
  \<^verbatim>\<open>users (id INT PRIMARY_KEY, name TEXT)\<close> that supplies only \<^verbatim>\<open>name\<close> succeeds, and the
  new live row holds \<^verbatim>\<open>None\<close> in the primary key column.
\<close>

theorem primary_key_null_when_omitted:
  "insert_row [(''name'', VStr ''x'')]
     (new_table ''users''
        [\<lparr>name = ''id'', data_type = DataType_INT, constraint = PRIMARY_KEY, nullable = False\<rparr>,
         \<lparr>name = ''name'', data_type = DataType_TEXT, constraint = NONE, nullable = True\<rparr>])
   = (Inr 1,
      \<lparr>tbl_name = ''users'',
       columns =
         [(''id'', \<lparr>name = ''id'', data_type = DataType_INT, constraint = PRIMARY_KEY,
                   nullable = False\<rparr>),
          (''name'', \<lparr>name = ''name'', data_type = DataType_TEXT, constraint = NONE,
                     nullable = True\<rparr>)],
       rows = [[(''_row_id'', VInt 1), (''id'', VNone), (''name'', VStr ''x'')]],
       indexes = [(''id'', [])],
       next_row_id = 2\<rparr>)"
  by code_simp

text \<open>
  C9. The row identifier is the entry \<^verbatim>\<open>_row_id\<close> of the row's own dict, and nothing keeps
  a schema column from having that name. On \<^verbatim>\<open>t (_row_id INT)\<close> with one row inserted with
  the value 1, \<^verbatim>\<open>UPDATE t SET _row_id = 2\<close> returns the count 1 and the row that was
  identified by 1 is identified by 2 afterwards.
\<close>

theorem update_overwrites_row_id:
  "rows (snd (insert_row [(''_row_id'', VInt 1)]
          (new_table ''t''
             [\<lparr>name = ''_row_id'', data_type = DataType_INT, constraint = NONE,
               nullable = True\<rparr>])))
     = [[(''_row_id'', VInt 1)]]
   \<and> fst (update_rows None [(''_row_id'', VInt 2)]
          (snd (insert_row [(''_row_id'', VInt 1)]
             (new_table ''t''
                [\<lparr>name = ''_row_id'', data_type = DataType_INT, constraint = NONE,
                  nullable = True\<rparr>]))))
     = Inr 1
   \<and> rows (snd (update_rows None [(''_row_id'', VInt 2)]
          (snd (insert_row [(''_row_id'', VInt 1)]
             (new_table ''t''
                [\<lparr>name = ''_row_id'', data_type = DataType_INT, constraint = NONE,
                  nullable = True\<rparr>])))))
     = [[(''_row_id'', VInt 2)]]"
  by code_simp

section \<open>Value literals\<close>

lemma of_char_upper:
  "(of_char (char_upper c) :: nat) =
     (if 97 \<le> (of_char c :: nat) \<and> (of_char c :: nat) \<le> 122 then of_char c - 32
      else of_char c)"
  by (auto simp: char_upper_def)

lemma char_eq_iff_nat: "c = d \<longleftrightarrow> (of_char c :: nat) = of_char d"
  by (metis char_of_char)

lemma char_upper_N: "char_upper c = CHR ''N'' \<longleftrightarrow> c = CHR ''n'' \<or> c = CHR ''N''"
  unfolding char_eq_iff_nat [of _ "CHR ''N''"] char_eq_iff_nat [of _ "CHR ''n''"] of_char_upper
  by auto

lemma char_upper_U: "char_upper c = CHR ''U'' \<longleftrightarrow> c = CHR ''u'' \<or> c = CHR ''U''"
  unfolding char_eq_iff_nat [of _ "CHR ''U''"] char_eq_iff_nat [of _ "CHR ''u''"] of_char_upper
  by auto

lemma char_upper_L: "char_upper c = CHR ''L'' \<longleftrightarrow> c = CHR ''l'' \<or> c = CHR ''L''"
  unfolding char_eq_iff_nat [of _ "CHR ''L''"] char_eq_iff_nat [of _ "CHR ''l''"] of_char_upper
  by auto

lemma upper_null: "upper t = ''NULL'' \<longleftrightarrow> spells_null t"
  by (auto simp: upper_def spells_null_def char_upper_N char_upper_U char_upper_L
      split: list.splits)

lemma quoted_iff:
  "startswith t [CHR 0x27] \<and> endswith t [CHR 0x27] \<longleftrightarrow> wrapped_in_quotes t \<or> t = [CHR 0x27]"
proof (cases t rule: rev_cases)
  case Nil
  then show ?thesis by (simp add: startswith_def endswith_def wrapped_in_quotes_def)
next
  case (snoc ys y)
  then show ?thesis
    by (cases ys) (auto simp: startswith_def endswith_def wrapped_in_quotes_def)
qed

lemma not_null_lone_quote: "\<not> spells_null [CHR 0x27]"
  by (simp add: spells_null_def)

lemma replace_Nil: "replace old new [] = []"
  by (subst replace.simps) simp

lemma replace_quotes_Cons:
  "replace [CHR 0x27, CHR 0x27] [CHR 0x27] (a # s) =
     (if a = CHR 0x27 \<and> s \<noteq> [] \<and> hd s = CHR 0x27
      then CHR 0x27 # replace [CHR 0x27, CHR 0x27] [CHR 0x27] (tl s)
      else a # replace [CHR 0x27, CHR 0x27] [CHR 0x27] s)"
  by (subst replace.simps) (cases s; auto)

lemma replace_unescape: "replace [CHR 0x27, CHR 0x27] [CHR 0x27] s = unescape_quotes s"
  by (induction s rule: unescape_quotes.induct)
     (simp_all add: replace_Nil replace_quotes_Cons)

text \<open>
  Away from the literal that is one quote alone, \<^verbatim>\<open>_parse_value\<close> strips the literal and
  then does what the specification says of a value literal, whatever the two builtins
  accept. At the lone quote both \<^verbatim>\<open>startswith\<close> and \<^verbatim>\<open>endswith\<close> hold of the same
  character, and the slice \<^verbatim>\<open>[1:-1]\<close> is empty.
\<close>

lemma parse_value_eq_literal_value:
  "parse_value to_float to_int s =
     (if strip s = [CHR 0x27] then VStr []
      else literal_value to_float to_int (strip s))"
proof (cases "strip s = [CHR 0x27]")
  case True
  then show ?thesis
    by (simp add: parse_value_def Let_def upper_null not_null_lone_quote
        startswith_def endswith_def replace_Nil)
next
  case False
  then show ?thesis
    using quoted_iff [of "strip s"]
    by (simp add: parse_value_def literal_value_def Let_def upper_null replace_unescape)
qed

text \<open>
  C7 fails at the literal that is one quote alone, as in \<^verbatim>\<open>WHERE name = '\<close>. The literal
  is not \<open>NULL\<close>, is not wrapped in single quotes, has no dot and is no integer, so by
  the claim it is returned as it is, the text of one quote. \<^verbatim>\<open>_parse_value\<close> takes it for
  a quoted string and returns the empty text.
\<close>

theorem lone_quote_parses_to_empty_text:
  "parse_value float_of_str int_of_str [CHR 0x27] = VStr []
   \<and> \<not> wrapped_in_quotes [CHR 0x27]
   \<and> literal_value float_of_str int_of_str [CHR 0x27] = VStr [CHR 0x27]"
  by code_simp

section \<open>The join without conditions\<close>

lemma join_pair_no_conditions:
  "no_conditions jc \<Longrightarrow> no_conditions wc \<Longrightarrow>
   join_pair tn jt jc wc l r = Inr (Some (merge_rows tn jt l r))"
  by (simp add: join_pair_def)

lemma join_inner_no_conditions:
  "no_conditions jc \<Longrightarrow> no_conditions wc \<Longrightarrow>
   join_inner tn jt jc wc l rs acc = Inr (acc @ map (merge_rows tn jt l) rs)"
  by (induction rs arbitrary: acc) (simp_all add: join_pair_no_conditions)

lemma join_outer_no_conditions:
  "no_conditions jc \<Longrightarrow> no_conditions wc \<Longrightarrow>
   join_outer tn jt jc wc ls rs acc
     = Inr (acc @ concat (map (\<lambda>l. map (merge_rows tn jt l) rs) ls))"
  by (induction ls arbitrary: acc) (simp_all add: join_inner_no_conditions)

lemma length_concat_product:
  "length (concat (map (\<lambda>l. map (f l) rs) ls)) = length ls * length rs"
  by (induction ls) simp_all

lemma prefixed_key_iff:
  "key = tn @ ''.'' @ col \<longleftrightarrow> take (length tn + 1) key = tn @ ''.'' \<and> drop (length tn + 1) key = col"
proof
  assume "key = tn @ ''.'' @ col"
  then show "take (length tn + 1) key = tn @ ''.'' \<and> drop (length tn + 1) key = col"
    by simp
next
  assume h: "take (length tn + 1) key = tn @ ''.'' \<and> drop (length tn + 1) key = col"
  have "key = take (length tn + 1) key @ drop (length tn + 1) key"
    by simp
  then show "key = tn @ ''.'' @ col"
    using h by (metis append.assoc)
qed

lemma map_of_merge_into:
  "distinct (map fst row) \<Longrightarrow>
   map_of (merge_into tn row acc) key =
     (case prefixed_field tn row key of Some v \<Rightarrow> Some v | None \<Rightarrow> map_of acc key)"
proof (induction row arbitrary: acc)
  case Nil
  then show ?case by (simp add: prefixed_field_def)
next
  case (Cons e row)
  obtain col v where e: "e = (col, v)" by (cases e)
  have d: "distinct (map fst row)" and notin: "col \<notin> fst ` set row"
    using Cons.prems e by auto
  have none: "map_of row col = None"
    using notin by (simp add: map_of_eq_None_iff)
  show ?case
  proof (cases "key = tn @ ''.'' @ col")
    case True
    then have k: "take (length tn + 1) key = tn @ ''.''" "drop (length tn + 1) key = col"
      by simp_all
    show ?thesis
      using Cons.IH [OF d] e k none
      by (simp add: prefixed_field_def update_conv' True)
  next
    case False
    then have k: "\<not> (take (length tn + 1) key = tn @ ''.'' \<and> drop (length tn + 1) key = col)"
      using prefixed_key_iff [of key tn col] by simp
    show ?thesis
      using Cons.IH [OF d] e k False
      by (auto simp: prefixed_field_def update_conv' split: option.splits)
  qed
qed

lemma map_of_merge_rows:
  "distinct (map fst l) \<Longrightarrow> distinct (map fst r) \<Longrightarrow>
   map_of (merge_rows tn jt l r) key =
     (case prefixed_field jt r key of
        Some v \<Rightarrow> Some v
      | None \<Rightarrow> prefixed_field tn l key)"
  by (simp add: merge_rows_def map_of_merge_into split: option.splits)

text \<open>
  C8. For tables \<open>A\<close> and \<open>B\<close> of a database, registered under the names \<open>a\<close> and \<open>b\<close>,
  \<^verbatim>\<open>SELECT * FROM a JOIN b\<close> with no join condition and no WHERE condition succeeds and
  returns exactly \<open>n * m\<close> merged rows, \<open>n\<close> and \<open>m\<close> being the numbers of live rows of \<open>A\<close>
  and \<open>B\<close>: the returned list is, for each row of \<open>A\<close> in order, its merge with each row
  of \<open>B\<close> in order, and the message counts \<open>n * m\<close> rows. The merge of a left and a
  right row holds, under each key, the prefixed field of the right row, else the prefixed
  field of the left row, and nothing else (the rows being dicts, with no key twice). The
  join path is taken for a non-empty join table name; an absent condition dict and an
  empty one are the same to the code.
\<close>

theorem join_without_conditions_cardinality:
  assumes "map_of db a = Some A" and "map_of db b = Some B" and "b \<noteq> []"
    and "no_conditions jc" and "no_conditions wc"
  shows "execute_select db
             \<lparr>table_name = a, sel_columns = [''*''], where_conditions = wc,
              join_table = Some b, join_conditions = jc\<rparr>
           = \<lparr>success = True,
              message = SelectedJoin (length (rows A) * length (rows B)) a b,
              data = Some (concat (map (\<lambda>l. map (merge_rows a b l) (rows B)) (rows A))),
              affected_rows = 0\<rparr>
         \<and> length (concat (map (\<lambda>l. map (merge_rows a b l) (rows B)) (rows A)))
             = length (rows A) * length (rows B)
         \<and> (\<forall>l \<in> set (rows A). \<forall>r \<in> set (rows B).
               distinct (map fst l) \<longrightarrow> distinct (map fst r) \<longrightarrow>
               (\<forall>key. map_of (merge_rows a b l r) key =
                        (case prefixed_field b r key of
                           Some v \<Rightarrow> Some v
                         | None \<Rightarrow> prefixed_field a l key)))"
proof -
  let ?joined = "concat (map (\<lambda>l. map (merge_rows a b l) (rows B)) (rows A))"
  have len: "length ?joined = length (rows A) * length (rows B)"
    by (rule length_concat_product)
  have "execute_select db
             \<lparr>table_name = a, sel_columns = [''*''], where_conditions = wc,
              join_table = Some b, join_conditions = jc\<rparr>
           = \<lparr>success = True, message = SelectedJoin (length ?joined) a b,
              data = Some ?joined, affected_rows = 0\<rparr>"
    using assms
    by (simp add: execute_select_def execute_join_select_def get_table_def find_rows_def
        no_conditions_def Let_def join_outer_no_conditions [unfolded no_conditions_def])
  then have sel: "execute_select db
             \<lparr>table_name = a, sel_columns = [''*''], where_conditions = wc,
              join_table = Some b, join_conditions = jc\<rparr>
           = \<lparr>success = True,
              message = SelectedJoin (length (rows A) * length (rows B)) a b,
              data = Some ?joined, affected_rows = 0\<rparr>"
    by (simp only: len)
  have fields: "\<forall>l \<in> set (rows A). \<forall>r \<in> set (rows B).
               distinct (map fst l) \<longrightarrow> distinct (map fst r) \<longrightarrow>
               (\<forall>key. map_of (merge_rows a b l r) key =
                        (case prefixed_field b r key of
                           Some v \<Rightarrow> Some v
                         | None \<Rightarrow> prefixed_field a l key))"
    by (simp add: map_of_merge_rows)
  show ?thesis
    by (rule conjI [OF sel conjI [OF len fields]])
qed

theorem join_without_conditions_cardinality_witness:
  "execute_select
     [(''a'', run [Insert [(''x'', VInt 1)], Insert [(''x'', VInt 2)]]
                (new_table ''a''
                   [\<lparr>name = ''x'', data_type = DataType_INT, constraint = NONE, nullable = True\<rparr>])),
      (''b'', run [Insert [(''y'', VStr ''u'')], Insert [(''y'', VNone)]]
                (new_table ''b''
                   [\<lparr>name = ''y'', data_type = DataType_TEXT, constraint = NONE, nullable = True\<rparr>]))]
     \<lparr>table_name = ''a'', sel_columns = [''*''], where_conditions = None,
      join_table = Some ''b'', join_conditions = None\<rparr>
   = \<lparr>success = True, message = SelectedJoin 4 ''a'' ''b'',
      data = Some [[(''a.x'', VInt 1), (''b.y'', VStr ''u'')],
                   [(''a.x'', VInt 1), (''b.y'', VNone)],
                   [(''a.x'', VInt 2), (''b.y'', VStr ''u'')],
                   [(''a.x'', VInt 2), (''b.y'', VNone)]],
      affected_rows = 0\<rparr>
   \<and> map_of (merge_rows ''a'' ''b'' [(''_row_id'', VInt 2), (''x'', VInt 2)]
                [(''_row_id'', VInt 1), (''y'', VStr ''u'')]) ''b.y'' = Some (VStr ''u'')
   \<and> map_of (merge_rows ''a'' ''b'' [(''_row_id'', VInt 2), (''x'', VInt 2)]
                [(''_row_id'', VInt 1), (''y'', VStr ''u'')]) ''a._row_id'' = None"
proof -
  let ?A = "run [Insert [(''x'', VInt 1)], Insert [(''x'', VInt 2)]]
              (new_table ''a''
                 [\<lparr>name = ''x'', data_type = DataType_INT, constraint = NONE, nullable = True\<rparr>])"
  let ?B = "run [Insert [(''y'', VStr ''u'')], Insert [(''y'', VNone)]]
              (new_table ''b''
                 [\<lparr>name = ''y'', data_type = DataType_TEXT, constraint = NONE, nullable = True\<rparr>])"
  let ?l = "[(''_row_id'', VInt 2), (''x'', VInt 2)]"
  let ?r = "[(''_row_id'', VInt 1), (''y'', VStr ''u'')]"
  have n: "length (rows ?A) * length (rows ?B) = 4"
    by code_simp
  have rs: "concat (map (\<lambda>l. map (merge_rows ''a'' ''b'' l) (rows ?B)) (rows ?A))
      = [[(''a.x'', VInt 1), (''b.y'', VStr ''u'')],
         [(''a.x'', VInt 1), (''b.y'', VNone)],
         [(''a.x'', VInt 2), (''b.y'', VStr ''u'')],
         [(''a.x'', VInt 2), (''b.y'', VNone)]]"
    by code_simp
  have ra: "rows ?A = [[(''_row_id'', VInt 1), (''x'', VInt 1)], ?l]"
    by code_simp
  have rb: "rows ?B = [?r, [(''_row_id'', VInt 2), (''y'', VNone)]]"
    by code_simp
  have l: "?l \<in> set (rows ?A)"
    unfolding ra by simp
  have r: "?r \<in> set (rows ?B)"
    unfolding rb by simp
  have dl: "distinct (map fst ?l)"
    by simp
  have dr: "distinct (map fst ?r)"
    by simp
  have k1: "(case prefixed_field ''b'' ?r ''b.y'' of
              Some v \<Rightarrow> Some v
            | None \<Rightarrow> prefixed_field ''a'' ?l ''b.y'') = Some (VStr ''u'')"
    by code_simp
  have k2: "(case prefixed_field ''b'' ?r ''a._row_id'' of
              Some v \<Rightarrow> Some v
            | None \<Rightarrow> prefixed_field ''a'' ?l ''a._row_id'') = None"
    by code_simp
  have a: "map_of [(''a'', ?A), (''b'', ?B)] ''a'' = Some ?A"
    by simp
  have b: "map_of [(''a'', ?A), (''b'', ?B)] ''b'' = Some ?B"
    by simp
  have c: "''b'' \<noteq> []"
    by simp
  have d: "no_conditions None"
    by (simp add: no_conditions_def)
  note t = join_without_conditions_cardinality [OF a b c d d]
  have "execute_select [(''a'', ?A), (''b'', ?B)]
     \<lparr>table_name = ''a'', sel_columns = [''*''], where_conditions = None,
      join_table = Some ''b'', join_conditions = None\<rparr>
   = \<lparr>success = True,
      message = SelectedJoin (length (rows ?A) * length (rows ?B)) ''a'' ''b'',
      data = Some (concat (map (\<lambda>l. map (merge_rows ''a'' ''b'' l) (rows ?B)) (rows ?A))),
      affected_rows = 0\<rparr>"
    using t by (rule conjunct1)
  then have sel: "execute_select [(''a'', ?A), (''b'', ?B)]
     \<lparr>table_name = ''a'', sel_columns = [''*''], where_conditions = None,
      join_table = Some ''b'', join_conditions = None\<rparr>
   = \<lparr>success = True, message = SelectedJoin 4 ''a'' ''b'',
      data = Some [[(''a.x'', VInt 1), (''b.y'', VStr ''u'')],
                   [(''a.x'', VInt 1), (''b.y'', VNone)],
                   [(''a.x'', VInt 2), (''b.y'', VStr ''u'')],
                   [(''a.x'', VInt 2), (''b.y'', VNone)]],
      affected_rows = 0\<rparr>"
    by (simp only: n rs)
  note f = conjunct2 [OF conjunct2 [OF t], rule_format, OF l r dl dr]
  have f1: "map_of (merge_rows ''a'' ''b'' ?l ?r) ''b.y'' = Some (VStr ''u'')"
    using f [of "''b.y''"] unfolding k1 .
  have f2: "map_of (merge_rows ''a'' ''b'' ?l ?r) ''a._row_id'' = None"
    using f [of "''a._row_id''"] unfolding k2 .
  show ?thesis
    by (rule conjI [OF sel conjI [OF f1 f2]])
qed
section \<open>Condition clauses\<close>

lemma parse_parts_eq:
  "parse_parts to_float to_int ps acc =
     (case find (\<lambda>p. CHR ''='' \<notin> set p) ps of
        Some p \<Rightarrow> Inl (InvalidCondition p)
      | None \<Rightarrow> Inr (foldl (\<lambda>d (k, v). AList.update k v d) acc
                        (map (conjunct_pair to_float to_int) ps)))"
  by (induction ps arbitrary: acc)
     (simp_all add: split_once_def conjunct_pair_def split: option.splits)

lemma split_str_not_Nil: "split_str sep s \<noteq> []"
  by (subst split_str.simps) (simp split: list.splits)

lemma join_split: "join_str sep (split_str sep s) = s"
proof (induction sep s rule: split_str.induct)
  case (1 sep s)
  show ?case
  proof (cases "s = []")
    case True
    then show ?thesis by (subst split_str.simps) simp
  next
    case ne: False
    show ?thesis
    proof (cases "sep \<noteq> [] \<and> take (length sep) s = sep")
      case True
      have "split_str sep s = [] # split_str sep (drop (length sep) s)"
        using ne True by (subst split_str.simps) simp
      moreover obtain q qs where "split_str sep (drop (length sep) s) = q # qs"
        using split_str_not_Nil by (cases "split_str sep (drop (length sep) s)") auto
      ultimately show ?thesis
        using 1(1) [OF ne True] True
        by (simp) (metis append_take_drop_id)
    next
      case False
      obtain q qs where q: "split_str sep (tl s) = q # qs"
        using split_str_not_Nil by (cases "split_str sep (tl s)") auto
      have "split_str sep s = (hd s # q) # qs"
        using ne False q by (subst split_str.simps) auto
      then show ?thesis
        using 1(2) [OF ne False] q ne by (cases qs) (auto)
    qed
  qed
qed

lemma first_piece_prefix:
  assumes "split_str sep s = q # qs"
  shows "\<exists>rest. s = q @ rest"
proof -
  have "join_str sep (q # qs) = s"
    using join_split [of sep s] assms by simp
  then show ?thesis
    by (cases qs) auto
qed

lemma take_prefix: "n \<le> length xs \<Longrightarrow> take n (xs @ ys) = take n xs"
  by simp

lemma split_str_no_separator:
  "sep \<noteq> [] \<Longrightarrow> p \<in> set (split_str sep s) \<Longrightarrow> \<not> has_substring sep p"
proof (induction sep s arbitrary: p rule: split_str.induct)
  case (1 sep s)
  show ?case
  proof (cases "s = []")
    case True
    then have "split_str sep s = [[]]" by (subst split_str.simps) simp
    then show ?thesis using "1.prems" by simp
  next
    case ne: False
    show ?thesis
    proof (cases "sep \<noteq> [] \<and> take (length sep) s = sep")
      case True
      have "split_str sep s = [] # split_str sep (drop (length sep) s)"
        using ne True by (subst split_str.simps) simp
      then have "p = [] \<or> p \<in> set (split_str sep (drop (length sep) s))"
        using "1.prems"(2) by auto
      then show ?thesis
        using "1.IH"(1) [OF ne True "1.prems"(1)] "1.prems"(1) by auto
    next
      case False
      obtain q qs where q: "split_str sep (tl s) = q # qs"
        using split_str_not_Nil by (cases "split_str sep (tl s)") auto
      have eq: "split_str sep s = (hd s # q) # qs"
        using ne False q by (subst split_str.simps) auto
      have IH: "\<not> has_substring sep p'" if "p' \<in> set (q # qs)" for p'
        using "1.IH"(2) [OF ne False "1.prems"(1)] that q by simp
      obtain rest where rest: "tl s = q @ rest"
        using first_piece_prefix [OF q] by blast
      have s: "s = (hd s # q) @ rest"
        using ne rest by (metis append_Cons list.collapse)
      have "take (length sep) (hd s # q) \<noteq> sep"
      proof
        assume h: "take (length sep) (hd s # q) = sep"
        have "length (take (length sep) (hd s # q)) = length sep"
          using h by simp
        then have le: "length sep \<le> length (hd s # q)"
          by simp
        have "take (length sep) ((hd s # q) @ rest) = take (length sep) (hd s # q)"
          using le by (rule take_prefix)
        then have t: "take (length sep) ((hd s # q) @ rest) = sep"
          using h by (rule trans)
        have "take (length sep) s = take (length sep) ((hd s # q) @ rest)"
          using s by (rule arg_cong)
        then have "take (length sep) s = sep"
          using t by (rule trans)
        then show False using False "1.prems"(1) by simp
      qed
      then have "\<not> has_substring sep (hd s # q)"
        using IH [of q] by simp
      then show ?thesis
        using "1.prems"(2) eq IH by auto
    qed
  qed
qed

text \<open>
  C6, as the code has it. The clause is cut at every occurrence of the three characters
  \<open>AND\<close>, wherever they stand: joining the pieces with \<open>AND\<close> gives the clause back, and
  no piece contains \<open>AND\<close>. Each piece is stripped. A conjunct needs at least one \<open>=\<close>:
  the first conjunct without one fails the parse with the invalid-condition error, which
  names it. Otherwise every conjunct is split at its first \<open>=\<close> into the key before it and
  the value literal after it, which may contain further \<open>=\<close> signs.
\<close>

theorem parse_conditions_first_equals:
  "join_str ''AND'' (split_str ''AND'' s) = s
   \<and> (\<forall>p \<in> set (split_str ''AND'' s). \<not> has_substring ''AND'' p)
   \<and> parse_conditions to_float to_int s =
     (case find (\<lambda>p. CHR ''='' \<notin> set p) (map strip (split_str ''AND'' s)) of
        Some p \<Rightarrow> Inl (InvalidCondition p)
      | None \<Rightarrow> Inr (dict_of_pairs (map (conjunct_pair to_float to_int)
                                     (map strip (split_str ''AND'' s)))))"
proof -
  have a: "join_str ''AND'' (split_str ''AND'' s) = s"
    by (rule join_split)
  have b: "\<forall>p \<in> set (split_str ''AND'' s). \<not> has_substring ''AND'' p"
    using split_str_no_separator [of "''AND''"] by simp
  have c: "parse_conditions to_float to_int s =
     (case find (\<lambda>p. CHR ''='' \<notin> set p) (map strip (split_str ''AND'' s)) of
        Some p \<Rightarrow> Inl (InvalidCondition p)
      | None \<Rightarrow> Inr (dict_of_pairs (map (conjunct_pair to_float to_int)
                                     (map strip (split_str ''AND'' s)))))"
    unfolding parse_conditions_def dict_of_pairs_def
    by (simp add: parse_parts_eq)
  show ?thesis
    by (rule conjI [OF a conjI [OF b c]])
qed

theorem parse_conditions_first_equals_witness:
  "split_str ''AND'' ''id = 7 AND BRAND = x=y'' = [''id = 7 '', '' BR'', '' = x=y'']
   \<and> join_str ''AND'' [''id = 7 '', '' BR'', '' = x=y''] = ''id = 7 AND BRAND = x=y''
   \<and> \<not> has_substring ''AND'' ''id = 7 ''
   \<and> \<not> has_substring ''AND'' '' BR''
   \<and> \<not> has_substring ''AND'' '' = x=y''
   \<and> parse_conditions float_of_str int_of_str ''id = 7 AND BRAND = x=y''
       = Inl (InvalidCondition ''BR'')
   \<and> parse_conditions float_of_str int_of_str ''id = 7 AND name = x=y''
       = Inr [(''id'', VInt 7), (''name'', VStr ''x=y'')]"
proof -
  have sp: "split_str ''AND'' ''id = 7 AND BRAND = x=y'' = [''id = 7 '', '' BR'', '' = x=y'']"
    by code_simp
  have sp2: "split_str ''AND'' ''id = 7 AND name = x=y'' = [''id = 7 '', '' name = x=y'']"
    by code_simp
  have r1: "(case find (\<lambda>p. CHR ''='' \<notin> set p) (map strip [''id = 7 '', '' BR'', '' = x=y'']) of
        Some p \<Rightarrow> Inl (InvalidCondition p)
      | None \<Rightarrow> Inr (dict_of_pairs (map (conjunct_pair float_of_str int_of_str)
                                     (map strip [''id = 7 '', '' BR'', '' = x=y'']))))
      = Inl (InvalidCondition ''BR'')"
    by code_simp
  have r2: "(case find (\<lambda>p. CHR ''='' \<notin> set p) (map strip [''id = 7 '', '' name = x=y'']) of
        Some p \<Rightarrow> Inl (InvalidCondition p)
      | None \<Rightarrow> Inr (dict_of_pairs (map (conjunct_pair float_of_str int_of_str)
                                     (map strip [''id = 7 '', '' name = x=y'']))))
      = Inr [(''id'', VInt 7), (''name'', VStr ''x=y'')]"
    by code_simp
  note t1 = parse_conditions_first_equals
              [of "''id = 7 AND BRAND = x=y''" float_of_str int_of_str, unfolded sp]
  note t2 = parse_conditions_first_equals
              [of "''id = 7 AND name = x=y''" float_of_str int_of_str, unfolded sp2]
  have j: "join_str ''AND'' [''id = 7 '', '' BR'', '' = x=y''] = ''id = 7 AND BRAND = x=y''"
    using t1 by (rule conjunct1)
  have n: "\<forall>p \<in> set [''id = 7 '', '' BR'', '' = x=y'']. \<not> has_substring ''AND'' p"
    using conjunct2 [OF t1] by (rule conjunct1)
  have n1: "\<not> has_substring ''AND'' ''id = 7 ''"
    by (rule bspec [OF n]) simp
  have n2: "\<not> has_substring ''AND'' '' BR''"
    by (rule bspec [OF n]) simp
  have n3: "\<not> has_substring ''AND'' '' = x=y''"
    by (rule bspec [OF n]) simp
  have p1: "parse_conditions float_of_str int_of_str ''id = 7 AND BRAND = x=y''
       = Inl (InvalidCondition ''BR'')"
    using conjunct2 [OF conjunct2 [OF t1]] unfolding r1 .
  have p2: "parse_conditions float_of_str int_of_str ''id = 7 AND name = x=y''
       = Inr [(''id'', VInt 7), (''name'', VStr ''x=y'')]"
    using conjunct2 [OF conjunct2 [OF t2]] unfolding r2 .
  show ?thesis
    by (rule conjI [OF sp conjI [OF j conjI [OF n1 conjI [OF n2 conjI [OF n3 conjI [OF p1 p2]]]]]])
qed

text \<open>
  C6, as stated, fails: the conjunct \<^verbatim>\<open>a=b=c\<close> has two \<open>=\<close> signs and parses, to the key
  \<open>a\<close> and the text \<^verbatim>\<open>b=c\<close>. And the clause \<^verbatim>\<open>BRAND = 1\<close>, one conjunct with one \<open>=\<close>
  sign, does not parse: it is cut inside the word, and the piece \<open>BR\<close> has no \<open>=\<close>.
\<close>

theorem parse_conditions_two_equals:
  "count_list ''a=b=c'' CHR ''='' = 2
   \<and> parse_conditions float_of_str int_of_str ''a=b=c'' = Inr [(''a'', VStr ''b=c'')]
   \<and> count_list ''BRAND = 1'' CHR ''='' = 1
   \<and> parse_conditions float_of_str int_of_str ''BRAND = 1'' = Inl (InvalidCondition ''BR'')"
  by code_simp

section \<open>The update that fails on a later column\<close>

lemma py_eq_refl [simp]: "py_eq x x"
  by (cases x) simp_all

lemma py_eq_sym: "py_eq x y \<Longrightarrow> py_eq y x"
  by (cases x; cases y) auto

lemma py_eq_trans: "py_eq x y \<Longrightarrow> py_eq y z \<Longrightarrow> py_eq x z"
  by (cases x; cases y; cases z) auto

lemma map_of_map_entry:
  "map_of (AList.map_entry k f al) k' =
     (if k' = k then map_option f (map_of al k) else map_of al k')"
  by (induction al) auto

lemma update_columns_append:
  "update_columns rid i (us1 @ us2) t =
     (case update_columns rid i us1 t of
        (Inl e, t') \<Rightarrow> (Inl e, t')
      | (Inr u, t') \<Rightarrow> update_columns rid i us2 t')"
  by (induction us1 arbitrary: t)
     (auto simp: Let_def split: option.splits prod.splits sum.splits)

lemma update_columns_columns:
  "update_columns rid i us t = (r, t') \<Longrightarrow> columns t' = columns t"
  by (induction us arbitrary: t)
     (auto simp: Let_def split: option.splits prod.splits sum.splits if_splits)

lemma update_columns_length:
  "update_columns rid i us t = (r, t') \<Longrightarrow> length (rows t') = length (rows t)"
  by (induction us arbitrary: t)
     (auto simp: Let_def split: option.splits prod.splits sum.splits if_splits)

lemma update_columns_frame_cell:
  "update_columns rid i us t = (r, t') \<Longrightarrow> c \<notin> fst ` set us \<Longrightarrow>
   map_of (rows t' ! i) c = map_of (rows t ! i) c"
proof (induction us arbitrary: t)
  case Nil
  then show ?case by simp
next
  case (Cons u us)
  obtain c' v' where u: "u = (c', v')" by (cases u)
  have ne: "c' \<noteq> c" using Cons.prems(2) u by auto
  have step: "map_of ((rows t)[i := AList.update c' v' (rows t ! i)] ! i) c = map_of (rows t ! i) c"
    using ne by (cases "i < length (rows t)") (simp_all add: update_conv' list_update_beyond)
  show ?case
    using Cons.prems Cons.IH u step
    by (auto simp: Let_def split: option.splits prod.splits sum.splits if_splits)
qed

lemma update_columns_frame_index:
  "update_columns rid i us t = (r, t') \<Longrightarrow> c \<notin> fst ` set us \<Longrightarrow>
   map_of (indexes t') c = map_of (indexes t) c"
proof (induction us arbitrary: t)
  case Nil
  then show ?case by simp
next
  case (Cons u us)
  obtain c' v' where u: "u = (c', v')" by (cases u)
  have ne: "c' \<noteq> c" using Cons.prems(2) u by auto
  show ?case
    using Cons.prems Cons.IH u ne
    by (auto simp: Let_def map_of_map_entry split: option.splits prod.splits sum.splits if_splits)
qed


lemma validate_values_None:
  "validate_values t us = None \<Longrightarrow> (c, v) \<in> set us \<Longrightarrow>
   \<exists>col. map_of (columns t) c = Some col \<and> validate_value col v"
  by (induction us) (auto split: option.splits if_splits)

lemma check_constraint_cong:
  "columns t' = columns t \<Longrightarrow> map_of (indexes t') c = map_of (indexes t) c \<Longrightarrow>
   check_constraint t' c v = check_constraint t c v"
  by (simp add: check_constraint_def split: option.splits)

lemma update_columns_cells:
  "update_columns rid i us t = (Inr u, t') \<Longrightarrow> distinct (map fst us) \<Longrightarrow>
   i < length (rows t) \<Longrightarrow> (c, v) \<in> set us \<Longrightarrow>
   \<exists>x. map_of (rows t' ! i) c = Some x \<and> py_eq x v"
proof (induction us arbitrary: t)
  case Nil
  then show ?case by simp
next
  case (Cons w us)
  obtain c' v' where w: "w = (c', v')" by (cases w)
  obtain col old where col: "map_of (columns t) c' = Some col"
    and old: "map_of (rows t ! i) c' = Some old"
    using Cons.prems(1) w by (auto split: option.splits)
  show ?case
  proof (cases "py_eq old v'")
    case True
    then have rest: "update_columns rid i us t = (Inr u, t')"
      using Cons.prems(1) w col old by simp
    show ?thesis
    proof (cases "(c, v) = (c', v')")
      case same: True
      have "c' \<notin> fst ` set us" using Cons.prems(2) w by auto
      from update_columns_frame_cell [OF rest this]
      show ?thesis using old True same by simp
    next
      case False
      then have "(c, v) \<in> set us" using Cons.prems(4) w by auto
      from Cons.IH [OF rest _ Cons.prems(3) this] Cons.prems(2)
      show ?thesis by simp
    qed
  next
    case False
    let ?t1 = "t\<lparr>indexes := AList.map_entry c' (index_remove old rid) (indexes t)\<rparr>"
    let ?t3 = "?t1\<lparr>rows := (rows ?t1)[i := AList.update c' v' (rows ?t1 ! i)],
                   indexes := AList.map_entry c' (index_add v' rid) (indexes ?t1)\<rparr>"
    have rest: "update_columns rid i us ?t3 = (Inr u, t')"
      using Cons.prems(1) w col old False
      by (auto simp: Let_def split: option.splits)
    have len: "i < length (rows ?t3)" using Cons.prems(3) by simp
    show ?thesis
    proof (cases "(c, v) = (c', v')")
      case same: True
      have "c' \<notin> fst ` set us" using Cons.prems(2) w by auto
      from update_columns_frame_cell [OF rest this]
      show ?thesis using same Cons.prems(3) by (simp add: update_conv')
    next
      case False
      then have "(c, v) \<in> set us" using Cons.prems(4) w by auto
      from Cons.IH [OF rest _ len this] Cons.prems(2)
      show ?thesis by simp
    qed
  qed
qed

lemma update_columns_moves_entry:
  "update_columns rid i us t = (Inr u, t') \<Longrightarrow> distinct (map fst us) \<Longrightarrow>
   (c, v) \<in> set us \<Longrightarrow> map_of (rows t ! i) c = Some old \<Longrightarrow> \<not> py_eq old v \<Longrightarrow>
   map_of (indexes t) c = Some idx \<Longrightarrow>
   map_of (indexes t') c = Some (index_add v rid (index_remove old rid idx))"
proof (induction us arbitrary: t)
  case Nil
  then show ?case by simp
next
  case (Cons w us)
  obtain c' v' where w: "w = (c', v')" by (cases w)
  obtain col old' where col: "map_of (columns t) c' = Some col"
    and old': "map_of (rows t ! i) c' = Some old'"
    using Cons.prems(1) w by (auto split: option.splits)
  let ?t1 = "t\<lparr>indexes := AList.map_entry c' (index_remove old' rid) (indexes t)\<rparr>"
  let ?t3 = "?t1\<lparr>rows := (rows ?t1)[i := AList.update c' v' (rows ?t1 ! i)],
                 indexes := AList.map_entry c' (index_add v' rid) (indexes ?t1)\<rparr>"
  show ?case
  proof (cases "c = c'")
    case True
    have notin: "c' \<notin> fst ` set us" using Cons.prems(2) w by auto
    then have vv: "v = v'" using Cons.prems(3) w True by force
    have rest: "update_columns rid i us ?t3 = (Inr u, t')"
      using Cons.prems(1,4,5) w col old' True vv
      by (auto simp: Let_def split: option.splits)
    from update_columns_frame_index [OF rest notin]
    show ?thesis
      using True vv Cons.prems(4,6) old' by (simp add: map_of_map_entry)
  next
    case False
    then have mem: "(c, v) \<in> set us" using Cons.prems(3) w by auto
    have d: "distinct (map fst us)" using Cons.prems(2) by simp
    show ?thesis
    proof (cases "py_eq old' v'")
      case True
      then have rest: "update_columns rid i us t = (Inr u, t')"
        using Cons.prems(1) w col old' by simp
      from Cons.IH [OF rest d mem Cons.prems(4,5,6)] show ?thesis .
    next
      case ne: False
      have rest: "update_columns rid i us ?t3 = (Inr u, t')"
        using Cons.prems(1) w col old' ne
        by (auto simp: Let_def split: option.splits)
      have cell: "map_of (rows ?t3 ! i) c = Some old"
        using Cons.prems(4) False
        by (cases "i < length (rows t)") (simp_all add: update_conv' list_update_beyond)
      have ix: "map_of (indexes ?t3) c = Some idx"
        using Cons.prems(6) False by (simp add: map_of_map_entry)
      from Cons.IH [OF rest d mem cell Cons.prems(5) ix] show ?thesis .
    qed
  qed
qed


lemma index_find_add_mem: "row_id \<in> set (index_find v (index_add v row_id idx))"
  by (induction idx) auto

lemma find_row_positions_bound:
  "i \<in> set (find_row_positions conds t) \<Longrightarrow> i < length (rows t)"
  by (auto simp: find_row_positions_def split: if_splits)

text \<open>
  C5. An UPDATE matches the single row at position \<open>i\<close>; its SET columns are \<open>earlier\<close>,
  then \<open>c\<close>, then \<open>later\<close>. Every value passes validation, the \<open>earlier\<close> columns pass
  their constraint checks, and the check of \<open>c\<close> fails with \<open>e\<close> (against the index from
  which the row's old entry was just removed). Then \<^verbatim>\<open>update_rows\<close> stops with \<open>e\<close>, and
  in the table it leaves behind:
  \<^item> every earlier column of the row holds its new value;
  \<^item> for every earlier column that changed and has an index, the index is the old one with
    the row's identifier removed under the old value and added under the new value, so
    the identifier is in the entry of the new value;
  \<^item> the column \<open>c\<close> keeps its old value while its index has lost the row's entry;
  \<^item> the later columns are untouched.
  Nothing is rolled back.
\<close>

theorem update_rows_partial_mutation:
  assumes single: "find_row_positions conds t = [i]"
    and rid: "map_of (rows t ! i) ''_row_id'' = Some row_id"
    and dist: "distinct (map fst (earlier @ (c, v) # later))"
    and valid: "validate_values t (earlier @ (c, v) # later) = None"
    and pre: "fst (update_columns row_id i earlier t) = Inr ()"
    and old: "map_of (rows t ! i) c = Some old"
    and changed: "\<not> py_eq old v"
    and fail: "check_constraint
                 (t\<lparr>indexes := AList.map_entry c (index_remove old row_id) (indexes t)\<rparr>) c v
               = Some e"
  shows "fst (update_rows conds (earlier @ (c, v) # later) t) = Inl e
    \<and> (\<forall>(c', v') \<in> set earlier.
          \<exists>x. map_of (rows (snd (update_rows conds (earlier @ (c, v) # later) t)) ! i) c' = Some x
              \<and> py_eq x v')
    \<and> (\<forall>(c', v') \<in> set earlier. \<forall>old' idx.
          map_of (rows t ! i) c' = Some old' \<longrightarrow> \<not> py_eq old' v' \<longrightarrow>
          map_of (indexes t) c' = Some idx \<longrightarrow>
          map_of (indexes (snd (update_rows conds (earlier @ (c, v) # later) t))) c'
            = Some (index_add v' row_id (index_remove old' row_id idx))
          \<and> row_id \<in> set (index_find v' (index_add v' row_id (index_remove old' row_id idx))))
    \<and> map_of (rows (snd (update_rows conds (earlier @ (c, v) # later) t)) ! i) c = Some old
    \<and> map_of (indexes (snd (update_rows conds (earlier @ (c, v) # later) t))) c
        = map_option (index_remove old row_id) (map_of (indexes t) c)
    \<and> (\<forall>(c', v') \<in> set later.
          map_of (rows (snd (update_rows conds (earlier @ (c, v) # later) t)) ! i) c'
            = map_of (rows t ! i) c')"
proof -
  let ?us = "earlier @ (c, v) # later"
  obtain t1 where t1: "update_columns row_id i earlier t = (Inr (), t1)"
    using pre by (cases "update_columns row_id i earlier t") auto
  let ?t2 = "t1\<lparr>indexes := AList.map_entry c (index_remove old row_id) (indexes t1)\<rparr>"
  have len: "i < length (rows t)"
    using single find_row_positions_bound [of i conds t] by simp
  have c_notin: "c \<notin> fst ` set earlier" and d_earlier: "distinct (map fst earlier)"
    using dist by auto
  have cols1: "columns t1 = columns t"
    by (rule update_columns_columns [OF t1])
  obtain col where col: "map_of (columns t) c = Some col"
    using validate_values_None [OF valid, of c v] by auto
  have cell1: "map_of (rows t1 ! i) c = Some old"
    using update_columns_frame_cell [OF t1 c_notin] old by simp
  have ix1: "map_of (indexes t1) c = map_of (indexes t) c"
    by (rule update_columns_frame_index [OF t1 c_notin])
  have "check_constraint ?t2 c v
        = check_constraint
            (t\<lparr>indexes := AList.map_entry c (index_remove old row_id) (indexes t)\<rparr>) c v"
    by (rule check_constraint_cong) (simp_all add: cols1 map_of_map_entry ix1)
  then have chk: "check_constraint ?t2 c v = Some e"
    using fail by simp
  have step: "update_columns row_id i ((c, v) # later) t1 = (Inl e, ?t2)"
    using col cols1 cell1 changed chk by (simp add: Let_def)
  have cols: "update_columns row_id i ?us t = (Inl e, ?t2)"
    by (simp only: update_columns_append t1 step prod.case sum.case)
  have res: "update_rows conds ?us t = (Inl e, ?t2)"
    using single rid valid cols by (simp add: update_rows_def)
  have A: "fst (update_rows conds ?us t) = Inl e"
    using res by simp
  have B: "\<forall>(c', v') \<in> set earlier.
          \<exists>x. map_of (rows (snd (update_rows conds ?us t)) ! i) c' = Some x \<and> py_eq x v'"
    using update_columns_cells [OF t1 d_earlier len] res by auto
  have C: "\<forall>(c', v') \<in> set earlier. \<forall>old' idx.
          map_of (rows t ! i) c' = Some old' \<longrightarrow> \<not> py_eq old' v' \<longrightarrow>
          map_of (indexes t) c' = Some idx \<longrightarrow>
          map_of (indexes (snd (update_rows conds ?us t))) c'
            = Some (index_add v' row_id (index_remove old' row_id idx))
          \<and> row_id \<in> set (index_find v' (index_add v' row_id (index_remove old' row_id idx)))"
  proof (intro ballI, clarify)
    fix c' v' old' idx
    assume mem: "(c', v') \<in> set earlier"
      and o: "map_of (rows t ! i) c' = Some old'" and ne: "\<not> py_eq old' v'"
      and ix: "map_of (indexes t) c' = Some idx"
    have "c' \<noteq> c" using mem c_notin by force
    then have "map_of (indexes ?t2) c' = map_of (indexes t1) c'"
      by (simp add: map_of_map_entry)
    with update_columns_moves_entry [OF t1 d_earlier mem o ne ix] res
    show "map_of (indexes (snd (update_rows conds ?us t))) c'
            = Some (index_add v' row_id (index_remove old' row_id idx))
          \<and> row_id \<in> set (index_find v' (index_add v' row_id (index_remove old' row_id idx)))"
      by (simp add: index_find_add_mem)
  qed
  have D: "map_of (rows (snd (update_rows conds ?us t)) ! i) c = Some old"
    using res cell1 by simp
  have E: "map_of (indexes (snd (update_rows conds ?us t))) c
        = map_option (index_remove old row_id) (map_of (indexes t) c)"
    using res ix1 by (simp add: map_of_map_entry)
  have F: "\<forall>(c', v') \<in> set later.
          map_of (rows (snd (update_rows conds ?us t)) ! i) c' = map_of (rows t ! i) c'"
  proof (intro ballI, clarify)
    fix c' v'
    assume "(c', v') \<in> set later"
    then have "c' \<in> fst ` set later" by force
    moreover have "fst ` set earlier \<inter> fst ` set later = {}" using dist by auto
    ultimately have "c' \<notin> fst ` set earlier" by blast
    from update_columns_frame_cell [OF t1 this] res
    show "map_of (rows (snd (update_rows conds ?us t)) ! i) c' = map_of (rows t ! i) c'"
      by simp
  qed
  show ?thesis
    by (rule conjI [OF A conjI [OF B conjI [OF C conjI [OF D conjI [OF E F]]]]])
qed


theorem update_rows_partial_mutation_witness:
  "fst (update_rows (Some [(''id'', VInt 1)])
          ([(''id'', VInt 5)] @ (''email'', VStr ''b'') # [(''name'', VStr ''n'')])
          (run [Insert [(''id'', VInt 1), (''email'', VStr ''a'')],
                Insert [(''id'', VInt 2), (''email'', VStr ''b'')]]
             (new_table ''users''
                [\<lparr>name = ''id'', data_type = DataType_INT, constraint = PRIMARY_KEY,
                  nullable = False\<rparr>,
                 \<lparr>name = ''email'', data_type = DataType_TEXT, constraint = UNIQUE,
                  nullable = True\<rparr>,
                 \<lparr>name = ''name'', data_type = DataType_TEXT, constraint = NONE,
                  nullable = True\<rparr>])))
     = Inl (UniqueViolation ''email'' (VStr ''b''))
   \<and> rows (snd (update_rows (Some [(''id'', VInt 1)])
          ([(''id'', VInt 5)] @ (''email'', VStr ''b'') # [(''name'', VStr ''n'')])
          (run [Insert [(''id'', VInt 1), (''email'', VStr ''a'')],
                Insert [(''id'', VInt 2), (''email'', VStr ''b'')]]
             (new_table ''users''
                [\<lparr>name = ''id'', data_type = DataType_INT, constraint = PRIMARY_KEY,
                  nullable = False\<rparr>,
                 \<lparr>name = ''email'', data_type = DataType_TEXT, constraint = UNIQUE,
                  nullable = True\<rparr>,
                 \<lparr>name = ''name'', data_type = DataType_TEXT, constraint = NONE,
                  nullable = True\<rparr>]))))
     = [[(''_row_id'', VInt 1), (''id'', VInt 5), (''email'', VStr ''a''), (''name'', VNone)],
        [(''_row_id'', VInt 2), (''id'', VInt 2), (''email'', VStr ''b''), (''name'', VNone)]]
   \<and> indexes (snd (update_rows (Some [(''id'', VInt 1)])
          ([(''id'', VInt 5)] @ (''email'', VStr ''b'') # [(''name'', VStr ''n'')])
          (run [Insert [(''id'', VInt 1), (''email'', VStr ''a'')],
                Insert [(''id'', VInt 2), (''email'', VStr ''b'')]]
             (new_table ''users''
                [\<lparr>name = ''id'', data_type = DataType_INT, constraint = PRIMARY_KEY,
                  nullable = False\<rparr>,
                 \<lparr>name = ''email'', data_type = DataType_TEXT, constraint = UNIQUE,
                  nullable = True\<rparr>,
                 \<lparr>name = ''name'', data_type = DataType_TEXT, constraint = NONE,
                  nullable = True\<rparr>]))))
     = [(''id'', [(VInt 2, [VInt 2]), (VInt 5, [VInt 1])]),
        (''email'', [(VStr ''b'', [VInt 2])])]"
proof -
  let ?T = "run [Insert [(''id'', VInt 1), (''email'', VStr ''a'')],
                Insert [(''id'', VInt 2), (''email'', VStr ''b'')]]
             (new_table ''users''
                [\<lparr>name = ''id'', data_type = DataType_INT, constraint = PRIMARY_KEY,
                  nullable = False\<rparr>,
                 \<lparr>name = ''email'', data_type = DataType_TEXT, constraint = UNIQUE,
                  nullable = True\<rparr>,
                 \<lparr>name = ''name'', data_type = DataType_TEXT, constraint = NONE,
                  nullable = True\<rparr>])"
  let ?us = "[(''id'', VInt 5)] @ (''email'', VStr ''b'') # [(''name'', VStr ''n'')]"
  have h1: "find_row_positions (Some [(''id'', VInt 1)]) ?T = [0]"
    by code_simp
  have h2: "map_of (rows ?T ! 0) ''_row_id'' = Some (VInt 1)"
    by code_simp
  have h3: "distinct (map fst ?us)"
    by simp
  have h4: "validate_values ?T ?us = None"
    by code_simp
  have h5: "fst (update_columns (VInt 1) 0 [(''id'', VInt 5)] ?T) = Inr ()"
    by code_simp
  have h6: "map_of (rows ?T ! 0) ''email'' = Some (VStr ''a'')"
    by code_simp
  have h7: "\<not> py_eq (VStr ''a'') (VStr ''b'')"
    by simp
  have h8: "check_constraint
              (?T\<lparr>indexes := AList.map_entry ''email'' (index_remove (VStr ''a'') (VInt 1))
                                (indexes ?T)\<rparr>) ''email'' (VStr ''b'')
            = Some (UniqueViolation ''email'' (VStr ''b''))"
    by code_simp
  have r: "rows (snd (update_rows (Some [(''id'', VInt 1)]) ?us ?T))
     = [[(''_row_id'', VInt 1), (''id'', VInt 5), (''email'', VStr ''a''), (''name'', VNone)],
        [(''_row_id'', VInt 2), (''id'', VInt 2), (''email'', VStr ''b''), (''name'', VNone)]]"
    by code_simp
  have x: "indexes (snd (update_rows (Some [(''id'', VInt 1)]) ?us ?T))
     = [(''id'', [(VInt 2, [VInt 2]), (VInt 5, [VInt 1])]),
        (''email'', [(VStr ''b'', [VInt 2])])]"
    by code_simp
  from update_rows_partial_mutation [OF h1 h2 h3 h4 h5 h6 h7 h8]
  have "fst (update_rows (Some [(''id'', VInt 1)]) ?us ?T)
          = Inl (UniqueViolation ''email'' (VStr ''b''))"
    by (rule conjunct1)
  then show ?thesis
    using r x by (intro conjI)
qed


end
